theory Spec2Isabelle
  imports Complex_Main "HOL-Library.Word" "HOL-Library.Multiset" "HOL-Library.Log_Nat"
begin

unbundle bit_operations_syntax

section \<open>Register map (hardware\_regs.go, first part)\<close>

type_synonym byte = "8 word"
type_synonym u32 = "32 word"

definition RegMode :: byte where "RegMode = 0x00"
definition RegFrfhRx :: byte where "RegFrfhRx = 0x01"
definition RegFrfmRx :: byte where "RegFrfmRx = 0x02"
definition RegFrflRx :: byte where "RegFrflRx = 0x03"
definition RegFrfhTx :: byte where "RegFrfhTx = 0x04"
definition RegFrfmTx :: byte where "RegFrfmTx = 0x05"
definition RegFrflTx :: byte where "RegFrflTx = 0x06"
definition RegVersion :: byte where "RegVersion = 0x07"
definition RegTxfe1 :: byte where "RegTxfe1 = 0x08"
definition RegTxfe2 :: byte where "RegTxfe2 = 0x09"
definition RegTxfe3 :: byte where "RegTxfe3 = 0x0A"
definition RegTxfe4 :: byte where "RegTxfe4 = 0x0B"
definition RegRxfe1 :: byte where "RegRxfe1 = 0x0C"
definition RegRxfe2 :: byte where "RegRxfe2 = 0x0D"
definition RegRxfe3 :: byte where "RegRxfe3 = 0x0E"
definition RegIoMap :: byte where "RegIoMap = 0x0F"
definition RegCkSel :: byte where "RegCkSel = 0x10"
definition RegStat :: byte where "RegStat = 0x11"
definition RegIism :: byte where "RegIism = 0x12"
definition RegDigBridge :: byte where "RegDigBridge = 0x13"

lemmas reg_defs =
  RegMode_def RegFrfhRx_def RegFrfmRx_def RegFrflRx_def RegFrfhTx_def RegFrfmTx_def
  RegFrflTx_def RegVersion_def RegTxfe1_def RegTxfe2_def RegTxfe3_def RegTxfe4_def
  RegRxfe1_def RegRxfe2_def RegRxfe3_def RegIoMap_def RegCkSel_def RegStat_def
  RegIism_def RegDigBridge_def

text \<open>RegMode bits: \<open>1 << 3\<close>, \<open>1 << 2\<close>, \<open>1 << 1\<close>, \<open>1 << 0\<close>.\<close>

definition ModeBitDriverEnable :: byte where "ModeBitDriverEnable = push_bit 3 1"
definition ModeBitTxEnable :: byte where "ModeBitTxEnable = push_bit 2 1"
definition ModeBitRxEnable :: byte where "ModeBitRxEnable = push_bit 1 1"
definition ModeBitRefEnable :: byte where "ModeBitRefEnable = push_bit 0 1"

lemmas mode_bit_defs =
  ModeBitDriverEnable_def ModeBitTxEnable_def ModeBitRxEnable_def ModeBitRefEnable_def

text \<open>LNA gain codes (RegRxfe1 bits 7:5).\<close>

definition LnaGainMax :: byte where "LnaGainMax = 1"
definition LnaGainMinus6 :: byte where "LnaGainMinus6 = 2"
definition LnaGainMinus12 :: byte where "LnaGainMinus12 = 3"
definition LnaGainMinus24 :: byte where "LnaGainMinus24 = 4"
definition LnaGainMinus36 :: byte where "LnaGainMinus36 = 5"
definition LnaGainMinus48 :: byte where "LnaGainMinus48 = 6"

lemmas lna_defs =
  LnaGainMax_def LnaGainMinus6_def LnaGainMinus12_def LnaGainMinus24_def
  LnaGainMinus36_def LnaGainMinus48_def

text \<open>
  \<open>DefaultRegisterValues\<close> is a Go map literal; the entries are listed here in the order
  of the source text.  A Go map has no iteration order, so the order of this list carries
  no meaning: the loop that ranges over the map takes the order as an argument.
\<close>

definition DefaultRegisterValues :: "(byte \<times> byte) list" where
  "DefaultRegisterValues =
    [(RegMode, 0x01), (RegFrfhRx, 0xC0), (RegFrfmRx, 0xE3), (RegFrflRx, 0x8E),
     (RegFrfhTx, 0xC0), (RegFrfmTx, 0xE3), (RegFrflTx, 0x8E),
     (RegTxfe1, 0x2E), (RegTxfe2, 0x24), (RegTxfe3, 0x60), (RegTxfe4, 0x02),
     (RegRxfe1, 0x2F), (RegRxfe2, 0xA5), (RegRxfe3, 0x06), (RegCkSel, 0x02)]"

section \<open>Errors\<close>

text \<open>
  The Go code builds its errors with \<open>fmt.Errorf\<close>; each constructor below is one of
  the messages.  Where a caller wraps an error (\<open>%w\<close>) the model keeps the innermost
  one.  \<open>NilPointer\<close> is the run-time panic of a method reaching through a nil field.
\<close>

datatype error =
    ControllerNotInitialized    \<comment> \<open>"controller not initialized"\<close>
  | FrequencyOutOfRange u32     \<comment> \<open>"frequency %d Hz out of range (400-510 MHz)"\<close>
  | BufferLengthMismatch        \<comment> \<open>"tx and rx buffers must be the same length"\<close>
  | SpiNotOpen                  \<comment> \<open>"SPI device not open"\<close>
  | TransferFailed              \<comment> \<open>"SPI transfer failed: ..."\<close>
  | NoValues                    \<comment> \<open>"no values to write"\<close>
  | InvalidCount int            \<comment> \<open>"invalid count: %d"\<close>
  | HostInitFailed              \<comment> \<open>"failed to initialize periph.io: ..."\<close>
  | SpiOpenFailed               \<comment> \<open>"failed to open SPI device ..."\<close>
  | SpiConnectFailed            \<comment> \<open>"failed to connect to SPI device: ..."\<close>
  | ChipOpenFailed              \<comment> \<open>"failed to open GPIO chip ..."\<close>
  | ResetRequestFailed          \<comment> \<open>"failed to request reset pin ..."\<close>
  | TxRxRequestFailed           \<comment> \<open>"failed to request TX/RX pin ..."\<close>
  | ResetLineNotInitialized     \<comment> \<open>"reset line not initialized"\<close>
  | SetResetHighFailed          \<comment> \<open>"failed to set reset pin HIGH: ..."\<close>
  | SetResetLowFailed           \<comment> \<open>"failed to set reset pin LOW: ..."\<close>
  | NilPointer

text \<open>The classes of section 7 of the specification, and the class of each message.\<close>

datatype error_kind =
  ResourceUnavailable | NotInitialized | InvalidArgument | TransportFailure | InvalidState | Panic

fun kind :: "error \<Rightarrow> error_kind" where
  "kind ControllerNotInitialized = NotInitialized"
| "kind (FrequencyOutOfRange f) = InvalidArgument"
| "kind BufferLengthMismatch = InvalidArgument"
| "kind SpiNotOpen = NotInitialized"
| "kind TransferFailed = TransportFailure"
| "kind NoValues = InvalidArgument"
| "kind (InvalidCount n) = InvalidArgument"
| "kind HostInitFailed = ResourceUnavailable"
| "kind SpiOpenFailed = ResourceUnavailable"
| "kind SpiConnectFailed = ResourceUnavailable"
| "kind ChipOpenFailed = ResourceUnavailable"
| "kind ResetRequestFailed = ResourceUnavailable"
| "kind TxRxRequestFailed = ResourceUnavailable"
| "kind ResetLineNotInitialized = InvalidState"
| "kind SetResetHighFailed = TransportFailure"
| "kind SetResetLowFailed = TransportFailure"
| "kind NilPointer = Panic"

section \<open>The world outside the program\<close>

text \<open>
  Everything the Go code reaches through periph.io, gpiocdev and \<open>time.Sleep\<close> is one
  explicit state.  The device behind the SPI bus is a machine of any state type \<open>'d\<close>:
  \<open>bus\<close> is \<open>conn.Tx\<close>, taking the device state and the transmitted bytes to the new
  device state and the received bytes, or to no bytes when the transfer fails.
  \<open>refuses\<close> is the operating system: whether a call that can fail does fail, given the
  events so far.  \<open>held\<close> are the handles open at the moment, and \<open>trace\<close> records, oldest
  first, every effect of the program.  Durations are nanoseconds, as in \<open>time.Duration\<close>.
\<close>

datatype resource = SpiPort | GpioChip | GpioLine int

datatype attempt =
    HostInit | SpiOpen string | SpiConnect | ChipOpen string | LineRequest int
  | LineSetValue int int

datatype event =
    SpiTx "byte list"
  | Sleep nat
  | LineSet int int
  | Opened resource
  | Closed resource

record 'd world =
  dev :: 'd
  bus :: "'d \<Rightarrow> byte list \<Rightarrow> 'd \<times> byte list option"
  refuses :: "event list \<Rightarrow> attempt \<Rightarrow> bool"
  held :: "resource multiset"
  trace :: "event list"

definition emit :: "event \<Rightarrow> 'd world \<Rightarrow> 'd world" where
  "emit e w = w\<lparr>trace := trace w @ [e]\<rparr>"

definition sleep :: "nat \<Rightarrow> 'd world \<Rightarrow> 'd world" where
  "sleep ns w = emit (Sleep ns) w"

definition Microsecond :: nat where "Microsecond = 1000"
definition Millisecond :: nat where "Millisecond = 1000000"

section \<open>SPI register transport\<close>

text \<open>
  The fields \<open>conn\<close> and \<open>port\<close> of the Go struct are interface values; the model keeps
  whether each is non-nil.
\<close>

record SPIDevice =
  conn :: bool
  port :: bool
  device :: string
  speed :: nat

text \<open>
  \<open>conn.Tx(tx, rx)\<close> stores the received bytes into the caller's buffer \<open>rx\<close>:
  a buffer keeps its length whatever the device answers.
\<close>

definition fill :: "byte list \<Rightarrow> byte list \<Rightarrow> byte list" where
  "fill rx resp = take (length rx) (resp @ drop (length resp) rx)"

definition Transfer ::
  "SPIDevice \<Rightarrow> byte list \<Rightarrow> byte list \<Rightarrow> 'd world \<Rightarrow> (error + byte list) \<times> 'd world" where
  "Transfer s tx rx w =
    (if length tx \<noteq> length rx then (Inl BufferLengthMismatch, w)
     else if \<not> conn s then (Inl SpiNotOpen, w)
     else (case bus w (dev w) tx of
             (d, None) \<Rightarrow> (Inl TransferFailed, emit (SpiTx tx) (w\<lparr>dev := d\<rparr>))
           | (d, Some resp) \<Rightarrow> (Inr (fill rx resp), emit (SpiTx tx) (w\<lparr>dev := d\<rparr>))))"

definition SPIDevice_WriteRegister ::
  "SPIDevice \<Rightarrow> byte \<Rightarrow> byte \<Rightarrow> 'd world \<Rightarrow> (error + unit) \<times> 'd world" where
  "SPIDevice_WriteRegister s addr val w =
    (case Transfer s [addr OR 0x80, val] (replicate 2 0) w of
       (Inl e, w') \<Rightarrow> (Inl e, w')
     | (Inr rx, w') \<Rightarrow> (Inr (), sleep (10 * Microsecond) w'))"

definition SPIDevice_ReadRegister ::
  "SPIDevice \<Rightarrow> byte \<Rightarrow> 'd world \<Rightarrow> (error + byte) \<times> 'd world" where
  "SPIDevice_ReadRegister s addr w =
    (case Transfer s [addr AND 0x7F, 0x00] (replicate 2 0) w of
       (Inl e, w') \<Rightarrow> (Inl e, w')
     | (Inr rx, w') \<Rightarrow> (Inr (rx ! 1), sleep (10 * Microsecond) w'))"

text \<open>The count \<open>cnt\<close> is a Go \<open>int\<close>; \<open>make([]byte, count+1)\<close> is a zeroed buffer.\<close>

definition BurstWrite ::
  "SPIDevice \<Rightarrow> byte \<Rightarrow> byte list \<Rightarrow> 'd world \<Rightarrow> (error + unit) \<times> 'd world" where
  "BurstWrite s startAddr vals w =
    (if length vals = 0 then (Inl NoValues, w)
     else (let tx = (startAddr OR 0x80) # vals in
           case Transfer s tx (replicate (length tx) 0) w of
             (Inl e, w') \<Rightarrow> (Inl e, w')
           | (Inr rx, w') \<Rightarrow> (Inr (), sleep (10 * Microsecond) w')))"

definition BurstRead ::
  "SPIDevice \<Rightarrow> byte \<Rightarrow> int \<Rightarrow> 'd world \<Rightarrow> (error + byte list) \<times> 'd world" where
  "BurstRead s startAddr cnt w =
    (if cnt \<le> 0 then (Inl (InvalidCount cnt), w)
     else (let tx = (startAddr AND 0x7F) # replicate (nat cnt) 0 in
           case Transfer s tx (replicate (length tx) 0) w of
             (Inl e, w') \<Rightarrow> (Inl e, w')
           | (Inr rx, w') \<Rightarrow> (Inr (drop 1 rx), sleep (10 * Microsecond) w')))"

definition CheckDevice :: "SPIDevice \<Rightarrow> 'd world \<Rightarrow> (error + byte) \<times> 'd world" where
  "CheckDevice s w = SPIDevice_ReadRegister s RegVersion w"

section \<open>Double-precision arithmetic\<close>

text \<open>
  The frequency conversions are computed in \<open>float64\<close>.  A finite double is modelled by
  the rational number it denotes; every operation computes the exact result and rounds it
  as IEEE 754 does in the default mode: to the nearest number with a 53-bit significand,
  ties to the even significand, with gradual underflow below \<open>2^-1022\<close> and overflow to
  infinity from \<open>2^1024\<close>.  All operands in this program are conversions of unsigned
  integers and their products and quotients, so no negative number and no negative zero
  occurs; \<open>Infinity\<close> is the positive one.
\<close>

datatype f64 = Finite rat | Infinity | NaN

definition round_half_even :: "rat \<Rightarrow> int" where
  "round_half_even x =
    (let f = \<lfloor>x\<rfloor>; d = x - of_int f in
     if d < 1 / 2 then f else if 1 / 2 < d then f + 1 else if even f then f else f + 1)"

text \<open>\<open>ilog2 x\<close> is the binary exponent of a positive rational: \<open>2^e \<le> x < 2^(e+1)\<close>.\<close>

definition ilog2 :: "rat \<Rightarrow> int" where
  "ilog2 x =
    (let (p, q) = quotient_of x; k = bitlen p - bitlen q in
     if 2 powi k \<le> x then k else k - 1)"

definition fl_round :: "rat \<Rightarrow> f64" where
  "fl_round x =
    (if x = 0 then Finite 0
     else (let a = \<bar>x\<bar>;
               s = max (ilog2 a - 52) (- 1074);
               r = of_int (round_half_even (a / 2 powi s)) * 2 powi s
           in if 2 powi 1024 \<le> r then Infinity else Finite (sgn x * r)))"

text \<open>\<open>float64(x)\<close> of a \<open>uint32\<close> is exact.\<close>

definition f64_of_u32 :: "u32 \<Rightarrow> f64" where
  "f64_of_u32 w = Finite (of_nat (unat w))"

fun f64_mul :: "f64 \<Rightarrow> f64 \<Rightarrow> f64" where
  "f64_mul (Finite a) (Finite b) = fl_round (a * b)"
| "f64_mul NaN _ = NaN"
| "f64_mul _ NaN = NaN"
| "f64_mul Infinity (Finite b) = (if b = 0 then NaN else Infinity)"
| "f64_mul (Finite a) Infinity = (if a = 0 then NaN else Infinity)"
| "f64_mul Infinity Infinity = Infinity"

fun f64_div :: "f64 \<Rightarrow> f64 \<Rightarrow> f64" where
  "f64_div (Finite a) (Finite b) =
     (if b = 0 then (if a = 0 then NaN else Infinity) else fl_round (a / b))"
| "f64_div NaN _ = NaN"
| "f64_div _ NaN = NaN"
| "f64_div Infinity (Finite b) = Infinity"
| "f64_div (Finite a) Infinity = Finite 0"
| "f64_div Infinity Infinity = NaN"

text \<open>\<open>math.Round\<close>: to the nearest integer, halves away from zero.\<close>

fun math_Round :: "f64 \<Rightarrow> f64" where
  "math_Round (Finite x) = Finite (sgn x * of_int \<lfloor>\<bar>x\<bar> + 1 / 2\<rfloor>)"
| "math_Round Infinity = Infinity"
| "math_Round NaN = NaN"

text \<open>\<open>math.Pow(2, 20)\<close> is the double \<open>1048576\<close>.\<close>

definition Pow_2_20 :: f64 where
  "Pow_2_20 = Finite 1048576"

text \<open>
  \<open>uint32(x)\<close> of a double truncates towards zero.  When the truncated value is not a
  \<open>uint32\<close>, or \<open>x\<close> is not finite, Go leaves the result to the implementation: it is
  whatever the argument \<open>impl\<close> says.
\<close>

definition uint32_of_f64 :: "(f64 \<Rightarrow> u32) \<Rightarrow> f64 \<Rightarrow> u32" where
  "uint32_of_f64 impl v =
    (case v of
       Finite x \<Rightarrow>
         (let t = (if 0 \<le> x then \<lfloor>x\<rfloor> else - \<lfloor>- x\<rfloor>) in
          if 0 \<le> t \<and> t < 2 ^ 32 then word_of_int t else impl v)
     | _ \<Rightarrow> impl v)"

section \<open>GPIO line controller\<close>

text \<open>
  \<open>chip\<close> says whether the chip handle is non-nil; a line is known by its offset.
\<close>

record GPIOController =
  chip :: bool
  resetLine :: "int option"
  txRxLine :: "int option"
  chipPath :: string
  resetPin :: int
  txRxPin :: int

definition acquire :: "resource \<Rightarrow> 'd world \<Rightarrow> 'd world" where
  "acquire r w = emit (Opened r) (w\<lparr>held := held w + {#r#}\<rparr>)"

text \<open>
  Closing a handle gives it back.  \<open>Close\<close> also returns an error value, which the
  constructors below discard; it is not modelled.
\<close>

definition release :: "resource \<Rightarrow> 'd world \<Rightarrow> 'd world" where
  "release r w = emit (Closed r) (w\<lparr>held := held w - {#r#}\<rparr>)"

text \<open>\<open>chip.RequestLine(pin, gpiocdev.AsOutput(0), ...)\<close>: the line is claimed and driven low.\<close>

definition RequestLine :: "int \<Rightarrow> 'd world \<Rightarrow> bool \<times> 'd world" where
  "RequestLine pin w =
    (if refuses w (trace w) (LineRequest pin) then (False, w)
     else (True, emit (LineSet pin 0) (acquire (GpioLine pin) w)))"

definition NewGPIOController ::
  "string \<Rightarrow> int \<Rightarrow> int \<Rightarrow> 'd world \<Rightarrow> (error + GPIOController) \<times> 'd world" where
  "NewGPIOController path rp tp w =
    (if refuses w (trace w) (ChipOpen path) then (Inl ChipOpenFailed, w)
     else (let w1 = acquire GpioChip w in
       case RequestLine rp w1 of
         (False, w2) \<Rightarrow> (Inl ResetRequestFailed, release GpioChip w2)
       | (True, w2) \<Rightarrow>
          (case RequestLine tp w2 of
             (False, w3) \<Rightarrow>
               (Inl TxRxRequestFailed, release GpioChip (release (GpioLine rp) w3))
           | (True, w3) \<Rightarrow>
               (Inr \<lparr>chip = True, resetLine = Some rp, txRxLine = Some tp,
                     chipPath = path, resetPin = rp, txRxPin = tp\<rparr>, w3))))"

definition SetValue :: "int \<Rightarrow> int \<Rightarrow> 'd world \<Rightarrow> bool \<times> 'd world" where
  "SetValue line v w =
    (if refuses w (trace w) (LineSetValue line v) then (False, w)
     else (True, emit (LineSet line v) w))"

definition Reset :: "GPIOController \<Rightarrow> 'd world \<Rightarrow> (error + unit) \<times> 'd world" where
  "Reset g w =
    (case resetLine g of
       None \<Rightarrow> (Inl ResetLineNotInitialized, w)
     | Some line \<Rightarrow>
        (case SetValue line 1 w of
           (False, w1) \<Rightarrow> (Inl SetResetHighFailed, w1)
         | (True, w1) \<Rightarrow>
            (case SetValue line 0 (sleep (100 * Microsecond) w1) of
               (False, w2) \<Rightarrow> (Inl SetResetLowFailed, w2)
             | (True, w2) \<Rightarrow> (Inr (), sleep (5 * Millisecond) w2))))"

section \<open>Opening the SPI device\<close>

definition NewSPIDevice :: "string \<Rightarrow> u32 \<Rightarrow> 'd world \<Rightarrow> (error + SPIDevice) \<times> 'd world" where
  "NewSPIDevice dv spd w =
    (if refuses w (trace w) HostInit then (Inl HostInitFailed, w)
     else if refuses w (trace w) (SpiOpen dv) then (Inl SpiOpenFailed, w)
     else (let w1 = acquire SpiPort w in
       if refuses w1 (trace w1) SpiConnect then (Inl SpiConnectFailed, release SpiPort w1)
       else (Inr \<lparr>conn = True, port = True, device = dv, speed = unat spd\<rparr>, w1)))"

definition SPIDevice_Close :: "SPIDevice \<Rightarrow> 'd world \<Rightarrow> 'd world" where
  "SPIDevice_Close s w = (if port s then release SpiPort w else w)"

section \<open>Transceiver controller\<close>

record SX1255Controller =
  spi :: "SPIDevice option"
  gpio :: "GPIOController option"
  clockFreq :: u32
  initialized :: bool

definition NewSX1255Controller ::
  "string \<Rightarrow> u32 \<Rightarrow> string \<Rightarrow> int \<Rightarrow> int \<Rightarrow> u32 \<Rightarrow> 'd world
    \<Rightarrow> (error + SX1255Controller) \<times> 'd world" where
  "NewSX1255Controller spiDevice spiSpeed gpioChip rp tp clk w =
    (case NewSPIDevice spiDevice spiSpeed w of
       (Inl e, w1) \<Rightarrow> (Inl e, w1)
     | (Inr s, w1) \<Rightarrow>
        (case NewGPIOController gpioChip rp tp w1 of
           (Inl e, w2) \<Rightarrow> (Inl e, SPIDevice_Close s w2)
         | (Inr g, w2) \<Rightarrow>
            (Inr \<lparr>spi = Some s, gpio = Some g, clockFreq = clk, initialized = True\<rparr>, w2)))"

text \<open>
  \<open>s.spi.ReadRegister(addr)\<close> and \<open>s.spi.WriteRegister(addr, value)\<close>: a nil \<open>s.spi\<close> panics
  at the first field access, before any transfer.
\<close>

definition spi_read :: "SX1255Controller \<Rightarrow> byte \<Rightarrow> 'd world \<Rightarrow> (error + byte) \<times> 'd world" where
  "spi_read c addr w =
    (case spi c of None \<Rightarrow> (Inl NilPointer, w) | Some s \<Rightarrow> SPIDevice_ReadRegister s addr w)"

definition spi_write ::
  "SX1255Controller \<Rightarrow> byte \<Rightarrow> byte \<Rightarrow> 'd world \<Rightarrow> (error + unit) \<times> 'd world" where
  "spi_write c addr val w =
    (case spi c of None \<Rightarrow> (Inl NilPointer, w) | Some s \<Rightarrow> SPIDevice_WriteRegister s addr val w)"

definition SX1255Controller_Reset :: "SX1255Controller \<Rightarrow> 'd world \<Rightarrow> (error + unit) \<times> 'd world" where
  "SX1255Controller_Reset c w =
    (if \<not> initialized c then (Inl ControllerNotInitialized, w)
     else (case gpio c of None \<Rightarrow> (Inl NilPointer, w) | Some g \<Rightarrow> Reset g w))"

definition GetVersion :: "SX1255Controller \<Rightarrow> 'd world \<Rightarrow> (error + byte) \<times> 'd world" where
  "GetVersion c w =
    (if \<not> initialized c then (Inl ControllerNotInitialized, w) else spi_read c RegVersion w)"

definition SX1255Controller_ReadRegister ::
  "SX1255Controller \<Rightarrow> byte \<Rightarrow> 'd world \<Rightarrow> (error + byte) \<times> 'd world" where
  "SX1255Controller_ReadRegister c addr w =
    (if \<not> initialized c then (Inl ControllerNotInitialized, w) else spi_read c addr w)"

definition SX1255Controller_WriteRegister ::
  "SX1255Controller \<Rightarrow> byte \<Rightarrow> byte \<Rightarrow> 'd world \<Rightarrow> (error + unit) \<times> 'd world" where
  "SX1255Controller_WriteRegister c addr val w =
    (if \<not> initialized c then (Inl ControllerNotInitialized, w) else spi_write c addr val w)"

subsection \<open>Frequency\<close>

text \<open>
  \<open>uint32(math.Round(float64(freqHz) * math.Pow(2, 20) / float64(s.clockFreq)))\<close> and
  \<open>uint32(math.Round(float64(s.clockFreq) * float64(frf) / math.Pow(2, 20)))\<close>.
\<close>

definition frf_of_freq :: "(f64 \<Rightarrow> u32) \<Rightarrow> u32 \<Rightarrow> u32 \<Rightarrow> u32" where
  "frf_of_freq impl clk freqHz =
    uint32_of_f64 impl
      (math_Round (f64_div (f64_mul (f64_of_u32 freqHz) Pow_2_20) (f64_of_u32 clk)))"

definition freq_of_frf :: "(f64 \<Rightarrow> u32) \<Rightarrow> u32 \<Rightarrow> u32 \<Rightarrow> u32" where
  "freq_of_frf impl clk frf =
    uint32_of_f64 impl
      (math_Round (f64_div (f64_mul (f64_of_u32 clk) (f64_of_u32 frf)) Pow_2_20))"

text \<open>
  \<open>SetRxFrequency\<close> and \<open>SetTxFrequency\<close> are the same text up to the three register
  addresses, and so are \<open>GetRxFrequency\<close> and \<open>GetTxFrequency\<close>: each pair is one
  function of the addresses.
\<close>

definition set_frequency ::
  "byte \<Rightarrow> byte \<Rightarrow> byte \<Rightarrow> (f64 \<Rightarrow> u32) \<Rightarrow> SX1255Controller \<Rightarrow> u32 \<Rightarrow> 'd world
    \<Rightarrow> (error + unit) \<times> 'd world" where
  "set_frequency regH regM regL impl c freqHz w =
    (if \<not> initialized c then (Inl ControllerNotInitialized, w)
     else if freqHz < 400000000 \<or> freqHz > 510000000 then (Inl (FrequencyOutOfRange freqHz), w)
     else (let frf = frf_of_freq impl (clockFreq c) freqHz;
               msb = (ucast (drop_bit 16 frf AND 0xFF) :: byte);
               mid = (ucast (drop_bit 8 frf AND 0xFF) :: byte);
               lsb = (ucast (frf AND 0xFF) :: byte)
           in case spi_write c regH msb w of
                (Inl e, w1) \<Rightarrow> (Inl e, w1)
              | (Inr u, w1) \<Rightarrow>
                 (case spi_write c regM mid w1 of
                    (Inl e, w2) \<Rightarrow> (Inl e, w2)
                  | (Inr u, w2) \<Rightarrow> spi_write c regL lsb w2)))"

definition SetRxFrequency ::
  "(f64 \<Rightarrow> u32) \<Rightarrow> SX1255Controller \<Rightarrow> u32 \<Rightarrow> 'd world \<Rightarrow> (error + unit) \<times> 'd world" where
  "SetRxFrequency = set_frequency RegFrfhRx RegFrfmRx RegFrflRx"

definition SetTxFrequency ::
  "(f64 \<Rightarrow> u32) \<Rightarrow> SX1255Controller \<Rightarrow> u32 \<Rightarrow> 'd world \<Rightarrow> (error + unit) \<times> 'd world" where
  "SetTxFrequency = set_frequency RegFrfhTx RegFrfmTx RegFrflTx"

definition get_frequency ::
  "byte \<Rightarrow> byte \<Rightarrow> byte \<Rightarrow> (f64 \<Rightarrow> u32) \<Rightarrow> SX1255Controller \<Rightarrow> 'd world
    \<Rightarrow> (error + u32) \<times> 'd world" where
  "get_frequency regH regM regL impl c w =
    (if \<not> initialized c then (Inl ControllerNotInitialized, w)
     else (case spi_read c regH w of
        (Inl e, w1) \<Rightarrow> (Inl e, w1)
      | (Inr msb, w1) \<Rightarrow>
         (case spi_read c regM w1 of
            (Inl e, w2) \<Rightarrow> (Inl e, w2)
          | (Inr mid, w2) \<Rightarrow>
             (case spi_read c regL w2 of
                (Inl e, w3) \<Rightarrow> (Inl e, w3)
              | (Inr lsb, w3) \<Rightarrow>
                 (let frf = push_bit 16 (ucast msb :: u32) OR push_bit 8 (ucast mid :: u32)
                              OR (ucast lsb :: u32)
                  in (Inr (freq_of_frf impl (clockFreq c) frf), w3))))))"

definition GetRxFrequency ::
  "(f64 \<Rightarrow> u32) \<Rightarrow> SX1255Controller \<Rightarrow> 'd world \<Rightarrow> (error + u32) \<times> 'd world" where
  "GetRxFrequency = get_frequency RegFrfhRx RegFrfmRx RegFrflRx"

definition GetTxFrequency ::
  "(f64 \<Rightarrow> u32) \<Rightarrow> SX1255Controller \<Rightarrow> 'd world \<Rightarrow> (error + u32) \<times> 'd world" where
  "GetTxFrequency = get_frequency RegFrfhTx RegFrfmTx RegFrflTx"

subsection \<open>Gain and mode\<close>

definition lna_setting :: "byte \<Rightarrow> byte" where
  "lna_setting gainDb =
    (if gainDb > 45 then LnaGainMax
     else if gainDb > 39 then LnaGainMinus6
     else if gainDb > 30 then LnaGainMinus12
     else if gainDb > 18 then LnaGainMinus24
     else if gainDb > 6 then LnaGainMinus36
     else LnaGainMinus48)"

definition SetLNAGain :: "SX1255Controller \<Rightarrow> byte \<Rightarrow> 'd world \<Rightarrow> (error + unit) \<times> 'd world" where
  "SetLNAGain c gainDb w =
    (if \<not> initialized c then (Inl ControllerNotInitialized, w)
     else (let lnaGainSetting = lna_setting gainDb in
       case spi_read c RegRxfe1 w of
         (Inl e, w1) \<Rightarrow> (Inl e, w1)
       | (Inr reg, w1) \<Rightarrow>
           spi_write c RegRxfe1 ((reg AND 0x1F) OR push_bit 5 lnaGainSetting) w1))"

text \<open>
  \<open>EnableRx\<close>, \<open>EnableTx\<close> and \<open>EnablePA\<close> are the same text up to the mode bit.
\<close>

definition enable_bit ::
  "byte \<Rightarrow> SX1255Controller \<Rightarrow> bool \<Rightarrow> 'd world \<Rightarrow> (error + unit) \<times> 'd world" where
  "enable_bit b c enable w =
    (if \<not> initialized c then (Inl ControllerNotInitialized, w)
     else (case spi_read c RegMode w of
        (Inl e, w1) \<Rightarrow> (Inl e, w1)
      | (Inr reg, w1) \<Rightarrow>
          spi_write c RegMode (if enable then reg OR b else reg AND NOT b) w1))"

definition EnableRx :: "SX1255Controller \<Rightarrow> bool \<Rightarrow> 'd world \<Rightarrow> (error + unit) \<times> 'd world" where
  "EnableRx = enable_bit ModeBitRxEnable"

definition EnableTx :: "SX1255Controller \<Rightarrow> bool \<Rightarrow> 'd world \<Rightarrow> (error + unit) \<times> 'd world" where
  "EnableTx = enable_bit ModeBitTxEnable"

definition EnablePA :: "SX1255Controller \<Rightarrow> bool \<Rightarrow> 'd world \<Rightarrow> (error + unit) \<times> 'd world" where
  "EnablePA = enable_bit ModeBitDriverEnable"

subsection \<open>Initialisation\<close>

definition Initialize :: "SX1255Controller \<Rightarrow> 'd world \<Rightarrow> (error + unit) \<times> 'd world" where
  "Initialize c w =
    (if \<not> initialized c then (Inl ControllerNotInitialized, w)
     else (case GetVersion c w of
             (Inl e, w1) \<Rightarrow> (Inl e, w1)
           | (Inr v, w1) \<Rightarrow> (Inr (), w1)))"

text \<open>
  The loop \<open>for addr, value := range DefaultRegisterValues\<close>, over the entries in the
  order \<open>entries\<close> that the run time picks; it stops at the first write that fails.
\<close>

fun write_all ::
  "SX1255Controller \<Rightarrow> (byte \<times> byte) list \<Rightarrow> 'd world \<Rightarrow> (error + unit) \<times> 'd world" where
  "write_all c [] w = (Inr (), w)"
| "write_all c ((addr, val) # rest) w =
    (case spi_write c addr val w of
       (Inl e, w1) \<Rightarrow> (Inl e, w1)
     | (Inr u, w1) \<Rightarrow> write_all c rest w1)"

definition InitializeWithDefaults ::
  "(byte \<times> byte) list \<Rightarrow> SX1255Controller \<Rightarrow> 'd world \<Rightarrow> (error + unit) \<times> 'd world" where
  "InitializeWithDefaults entries c w =
    (case Initialize c w of
       (Inl e, w1) \<Rightarrow> (Inl e, w1)
     | (Inr u, w1) \<Rightarrow> write_all c entries w1)"

section \<open>The SX1255 behind the bus\<close>

text \<open>
  The chip is hardware, outside the program; what the claims say about register
  contents needs a model of it.  Section 6 of the specification gives its wire protocol:
  one address byte whose most-significant bit is the write flag, followed by one data
  byte per register.  The chip is a file of 8-bit registers: a write frame stores the
  data bytes at the address and the following ones, a read frame answers with the
  contents, after one byte clocked out while the address is received.  Its transfers do
  not fail.
\<close>

type_synonym regfile = "byte \<Rightarrow> byte"

fun store_regs :: "regfile \<Rightarrow> byte \<Rightarrow> byte list \<Rightarrow> regfile" where
  "store_regs r a [] = r"
| "store_regs r a (v # vs) = store_regs (r(a := v)) (a + 1) vs"

fun load_regs :: "regfile \<Rightarrow> byte \<Rightarrow> nat \<Rightarrow> byte list" where
  "load_regs r a 0 = []"
| "load_regs r a (Suc n) = r a # load_regs r (a + 1) n"

definition sx1255_bus :: "regfile \<Rightarrow> byte list \<Rightarrow> regfile \<times> byte list option" where
  "sx1255_bus r frame =
    (case frame of
       [] \<Rightarrow> (r, Some [])
     | h # vs \<Rightarrow>
        if h AND 0x80 \<noteq> 0
        then (store_regs r (h AND 0x7F) vs, Some (replicate (length frame) 0))
        else (r, Some (0 # load_regs r h (length vs))))"

section \<open>Reading a trace\<close>

fun tx_frames :: "event list \<Rightarrow> byte list list" where
  "tx_frames [] = []"
| "tx_frames (SpiTx f # es) = f # tx_frames es"
| "tx_frames (e # es) = tx_frames es"

definition is_write_frame :: "byte list \<Rightarrow> bool" where
  "is_write_frame f = (case f of [] \<Rightarrow> False | h # vs \<Rightarrow> h AND 0x80 \<noteq> 0)"

definition write_frames :: "event list \<Rightarrow> byte list list" where
  "write_frames es = filter is_write_frame (tx_frames es)"

text \<open>The time the program has spent in \<open>time.Sleep\<close>, in nanoseconds.\<close>

fun slept :: "event list \<Rightarrow> nat" where
  "slept [] = 0"
| "slept (Sleep ns # es) = ns + slept es"
| "slept (e # es) = slept es"

section \<open>Fixtures\<close>

text \<open>
  A controller is ready when it is initialised and its SPI connection is open, which is
  how \<open>NewSX1255Controller\<close> returns it.
\<close>

definition ready :: "SX1255Controller \<Rightarrow> bool" where
  "ready c = (initialized c \<and> (case spi c of None \<Rightarrow> False | Some s \<Rightarrow> conn s))"

text \<open>A chip with every register zero on an idle system, and a controller on it.\<close>

definition world0 :: "regfile world" where
  "world0 = \<lparr>dev = (\<lambda>a. 0), bus = sx1255_bus, refuses = (\<lambda>tr a. False), held = {#}, trace = []\<rparr>"

definition spi0 :: SPIDevice where
  "spi0 = \<lparr>conn = True, port = True, device = ''/dev/spidev0.0'', speed = 500000\<rparr>"

definition gpio0 :: GPIOController where
  "gpio0 = \<lparr>chip = True, resetLine = Some 22, txRxLine = Some 23,
            chipPath = ''gpiochip0'', resetPin = 22, txRxPin = 23\<rparr>"

definition ctrl0 :: "u32 \<Rightarrow> SX1255Controller" where
  "ctrl0 clk = \<lparr>spi = Some spi0, gpio = Some gpio0, clockFreq = clk, initialized = True\<rparr>"

text \<open>An implementation whose out-of-range conversions give zero.\<close>

definition impl0 :: "f64 \<Rightarrow> u32" where
  "impl0 v = 0"

text \<open>A system on which line 23 is already claimed by another consumer.\<close>

definition world_busy :: "regfile world" where
  "world_busy = world0\<lparr>refuses := (\<lambda>tr a. a = LineRequest 23)\<rparr>"

section \<open>Properties of the arithmetic\<close>

lemma round_half_even_err: "\<bar>of_int (round_half_even x) - x\<bar> \<le> 1/2"
proof -
  have "of_int \<lfloor>x\<rfloor> \<le> x" "x < of_int \<lfloor>x\<rfloor> + 1" by linarith+
  then show ?thesis
    unfolding round_half_even_def Let_def by (auto simp: abs_le_iff)
qed

lemma round_half_even_of_int [simp]: "round_half_even (of_int k) = k"
  by (simp add: round_half_even_def)

lemma ilog2_bounds:
  assumes "0 < x"
  shows "2 powi (ilog2 x) \<le> x" and "x < 2 powi (ilog2 x + 1)"
proof -
  obtain p q where pq: "quotient_of x = (p, q)" by (cases "quotient_of x")
  have q: "0 < q" using pq quotient_of_denom_pos by blast
  have x: "x = of_int p / of_int q" using pq by (simp add: quotient_of_div)
  have p: "0 < p" using assms q x by (simp add: zero_less_divide_iff)
  define bp where "bp = bitlen p"
  define bq where "bq = bitlen q"
  have bp1: "1 \<le> bp" and bq1: "1 \<le> bq"
    using p q by (auto simp: bp_def bq_def bitlen_alt_def)
  have "2 ^ nat (bp - 1) \<le> p" "p < 2 ^ nat bp" "2 ^ nat (bq - 1) \<le> q" "q < 2 ^ nat bq"
    using bitlen_bounds[OF p] bitlen_bounds[OF q] by (auto simp: bp_def bq_def)
  then have "(of_int (2 ^ nat (bp - 1)) :: rat) \<le> of_int p" "(of_int p :: rat) < of_int (2 ^ nat bp)"
    "(of_int (2 ^ nat (bq - 1)) :: rat) \<le> of_int q" "(of_int q :: rat) < of_int (2 ^ nat bq)"
    by (simp_all only: of_int_le_iff of_int_less_iff)
  then have P: "(2::rat) powi (bp - 1) \<le> of_int p" "(of_int p :: rat) < 2 powi bp"
    and Q: "(2::rat) powi (bq - 1) \<le> of_int q" "(of_int q :: rat) < 2 powi bq"
    using bp1 bq1 by (simp_all add: power_int_nonneg_exp)
  have qpos: "(0::rat) < of_int q" using q by simp
  have lo: "2 powi (bp - bq - 1) < x"
  proof -
    have "(2::rat) powi (bp - bq - 1) * of_int q < 2 powi (bp - bq - 1) * 2 powi bq"
      using Q(2) by (simp add: mult_strict_left_mono)
    also have "\<dots> = 2 powi (bp - 1)"
      by (simp add: power_int_add [symmetric])
    also have "\<dots> \<le> of_int p" by (rule P(1))
    finally show ?thesis using qpos by (simp add: x pos_less_divide_eq)
  qed
  have hi: "x < 2 powi (bp - bq + 1)"
  proof -
    have "(of_int p :: rat) < 2 powi bp" by (rule P(2))
    also have "\<dots> = 2 powi (bp - bq + 1) * 2 powi (bq - 1)"
      by (simp add: power_int_add [symmetric])
    also have "\<dots> \<le> 2 powi (bp - bq + 1) * of_int q"
      using Q(1) by (simp add: mult_left_mono)
    finally show ?thesis using qpos by (simp add: x pos_divide_less_eq)
  qed
  have il: "ilog2 x = (if 2 powi (bp - bq) \<le> x then bp - bq else bp - bq - 1)"
    by (simp add: ilog2_def pq bp_def bq_def)
  show "2 powi (ilog2 x) \<le> x"
    using lo by (simp add: il)
  show "x < 2 powi (ilog2 x + 1)"
    using hi by (simp add: il)
qed


lemma two_powi_less_D: "(2::rat) powi a < 2 powi b \<Longrightarrow> a < b"
  using power_int_increasing[of b a "2::rat"] by (cases "a < b") auto

lemma two_powi_pos: "(0::rat) < 2 powi k"
  by simp

lemma fl_round_rel:
  assumes lo: "2 powi (- 1022) \<le> x" and hi: "x < 2 powi 1023"
  shows "\<exists>r. fl_round x = Finite r \<and> \<bar>r - x\<bar> \<le> x / 2 ^ 53"
proof -
  have x: "0 < x" using lo two_powi_pos[of "- 1022"] by linarith
  define e where "e = ilog2 x"
  have b: "2 powi e \<le> x" "x < 2 powi (e + 1)"
    using ilog2_bounds[OF x] by (simp_all add: e_def)
  have "(2::rat) powi (- 1022) < 2 powi (e + 1)" using lo b(2) by linarith
  then have e1: "- 1022 \<le> e" using two_powi_less_D by fastforce
  have "(2::rat) powi e < 2 powi 1023" using hi b(1) by linarith
  then have e2: "e < 1023" by (rule two_powi_less_D)
  define s where "s = e - 52"
  have s: "max (ilog2 x - 52) (- 1074) = s" using e1 by (simp add: s_def e_def)
  define m where "m = round_half_even (x / 2 powi s)"
  define r where "r = of_int m * (2::rat) powi s"
  have "\<bar>of_int m - x / 2 powi s\<bar> \<le> 1 / 2"
    unfolding m_def by (rule round_half_even_err)
  then have "\<bar>of_int m - x / 2 powi s\<bar> * 2 powi s \<le> 1 / 2 * 2 powi s"
    by (rule mult_right_mono) simp
  moreover have "\<bar>of_int m - x / 2 powi s\<bar> * 2 powi s = \<bar>r - x\<bar>"
  proof -
    have "\<bar>of_int m - x / 2 powi s\<bar> * 2 powi s = \<bar>(of_int m - x / 2 powi s) * 2 powi s\<bar>"
      by (simp add: abs_mult)
    also have "(of_int m - x / 2 powi s) * 2 powi s = r - x"
      by (simp add: r_def left_diff_distrib)
    finally show ?thesis .
  qed
  moreover have "1 / 2 * (2::rat) powi s = 2 powi e / 2 ^ 53"
  proof -
    have "(2::rat) powi e = 2 powi (s + 52)" by (simp add: s_def)
    also have "\<dots> = 2 powi s * 2 ^ 52" by (simp add: power_int_add)
    finally show ?thesis by simp
  qed
  ultimately have err: "\<bar>r - x\<bar> \<le> 2 powi e / 2 ^ 53" by simp
  also have "\<dots> \<le> x / 2 ^ 53" using b(1) by (simp add: divide_right_mono)
  finally have rel: "\<bar>r - x\<bar> \<le> x / 2 ^ 53" .
  have "r \<le> x + x / 2 ^ 53" using rel by linarith
  also have "\<dots> < 2 * x" using x by simp
  also have "\<dots> < 2 * 2 powi 1023" using hi by simp
  also have "\<dots> = 2 powi 1024" by simp
  finally have fin: "\<not> 2 powi 1024 \<le> r" by simp
  have ax: "\<bar>x\<bar> = x" "sgn x = 1" "x \<noteq> 0" using x by simp_all
  have "fl_round x = Finite r"
    using fin ax(3) unfolding fl_round_def Let_def ax(1,2) s r_def m_def by simp
  then show ?thesis using rel by blast
qed

lemma fl_round_int:
  assumes "\<bar>n\<bar> < 2 ^ 53"
  shows "fl_round (of_int n) = Finite (of_int n)"
proof (cases "n = 0")
  case True
  then show ?thesis by (simp add: fl_round_def)
next
  case False
  define a :: rat where "a = of_int \<bar>n\<bar>"
  have a1: "1 \<le> a" using False by (simp add: a_def)
  have a: "0 < a" using a1 by simp
  define e where "e = ilog2 a"
  have b: "2 powi e \<le> a" "a < 2 powi (e + 1)"
    using ilog2_bounds[OF a] by (simp_all add: e_def)
  have "(2::rat) powi 0 < 2 powi (e + 1)" using a1 b(2) by simp
  then have e0: "0 \<le> e" using two_powi_less_D by fastforce
  have "a < 2 ^ 53" using assms unfolding a_def
    by (metis of_int_less_iff of_int_numeral of_int_power)
  then have "(2::rat) powi e < 2 powi 53" using b(1) by simp
  then have e53: "e < 53" by (rule two_powi_less_D)
  define k where "k = nat (52 - e)"
  have s: "max (ilog2 a - 52) (- 1074) = - int k" using e0 e53 by (simp add: k_def e_def)
  have pk: "(2::rat) powi (- int k) = 1 / 2 ^ k" by (simp add: power_int_minus_divide)
  have q: "a / 2 powi (- int k) = of_int (\<bar>n\<bar> * 2 ^ k)" by (simp add: pk a_def)
  have m: "round_half_even (a / 2 powi (- int k)) = \<bar>n\<bar> * 2 ^ k"
    unfolding q by (rule round_half_even_of_int)
  have r: "of_int (\<bar>n\<bar> * 2 ^ k) * (2::rat) powi (- int k) = a" by (simp add: pk a_def)
  have "a < 2 ^ 1024"
    using \<open>a < 2 ^ 53\<close> power_strict_increasing[of 53 1024 "2::rat"] by linarith
  then have fin: "\<not> 2 powi 1024 \<le> a" by simp
  have abs: "\<bar>rat_of_int n\<bar> = a" by (simp add: a_def)
  have "fl_round (of_int n) = Finite (sgn (of_int n) * a)"
    using False fin unfolding fl_round_def Let_def abs s m r by simp
  moreover have "sgn (rat_of_int n) * a = of_int n"
    unfolding a_def by (simp add: sgn_if)
  ultimately show ?thesis by simp
qed


lemma frf_main:
  fixes f c :: nat
  assumes f: "400000000 \<le> f" "f \<le> 510000000" and c: "31875001 \<le> c" "c < 2 ^ 32"
  defines "x \<equiv> (of_nat f * 2 ^ 20 / of_nat c :: rat)"
  shows "\<exists>n::nat. math_Round (f64_div (f64_mul (Finite (of_nat f)) Pow_2_20) (Finite (of_nat c)))
            = Finite (of_nat n) \<and> n < 2 ^ 24 \<and> 1 \<le> n \<and> \<bar>of_nat n - x\<bar> \<le> 1 / 2 + x / 2 ^ 53"
proof -
  have cpos: "(0::rat) < of_nat c" using c by simp
  have mul: "f64_mul (Finite (of_nat f)) Pow_2_20 = Finite (of_nat f * 2 ^ 20)"
  proof -
    have "\<bar>int f * 1048576\<bar> < 2 ^ 53" using f by simp
    from fl_round_int[OF this] show ?thesis by (simp add: Pow_2_20_def)
  qed
  have xc: "x * of_nat c = of_nat f * 2 ^ 20" using cpos by (simp add: x_def)
  have x_lo: "97656 \<le> x"
  proof -
    have "(97656::rat) * of_nat c \<le> 97656 * 2 ^ 32" using c by simp
    also have "\<dots> \<le> of_nat 400000000 * 2 ^ 20" by simp
    also have "\<dots> \<le> of_nat f * 2 ^ 20" using f by (simp del: of_nat_numeral)
    finally show ?thesis using cpos by (simp add: x_def pos_le_divide_eq)
  qed
  have x_hi: "x \<le> 534773760000000 / 31875001"
  proof -
    have "x * 31875001 \<le> x * of_nat c" using c x_lo by (intro mult_left_mono) simp_all
    also have "\<dots> \<le> of_nat 510000000 * 2 ^ 20" unfolding xc using f by (simp del: of_nat_numeral)
    finally show ?thesis by simp
  qed
  have "2 powi (- 1022) \<le> (1::rat)" by (simp add: power_int_minus_divide)
  then have lo: "2 powi (- 1022) \<le> x" using x_lo by linarith
  have "x < 2 ^ 1023" 
  proof -
    have "x < 2 ^ 25" using x_hi by simp
    also have "\<dots> < (2::rat) ^ 1023" by (rule power_strict_increasing) simp_all
    finally show ?thesis .
  qed
  then have hi: "x < 2 powi 1023" by simp
  obtain X where X: "fl_round x = Finite X" "\<bar>X - x\<bar> \<le> x / 2 ^ 53"
    using fl_round_rel[OF lo hi] by blast
  have X2: "\<bar>X - x\<bar> \<le> x / 9007199254740992" using X(2) by simp
  have dv: "f64_div (f64_mul (Finite (of_nat f)) Pow_2_20) (Finite (of_nat c)) = Finite X"
    unfolding mul using cpos X(1) by (simp add: x_def)
  have Xpos: "0 < X" using X2 x_lo by linarith
  define k where "k = \<lfloor>X + 1 / 2\<rfloor>"
  have k: "of_int k \<le> X + 1 / 2" "X + 1 / 2 < of_int k + 1" unfolding k_def by linarith+
  have kX: "\<bar>of_int k - X\<bar> \<le> 1 / 2" using k by linarith
  have "(0::rat) < of_int k" using k(2) X2 x_lo by linarith
  then have k1: "1 \<le> k" by simp
  have "rat_of_int k < 16777216" using k(1) X2 x_hi by linarith
  then have k2: "k < 2 ^ 24" by simp
  have rd: "math_Round (Finite X) = Finite (of_nat (nat k))"
    using Xpos k1 by (simp add: k_def)
  have "\<bar>of_int k - x\<bar> \<le> 1 / 2 + x / 9007199254740992"
    using kX X2 by linarith
  then have "\<bar>of_nat (nat k) - x\<bar> \<le> 1 / 2 + x / 2 ^ 53"
    using k1 by simp
  then show ?thesis using rd dv k1 k2 by (intro exI[of _ "nat k"]) (simp add: nat_less_iff)
qed


lemma freq_main:
  fixes n c :: nat
  assumes n: "1 \<le> n" "n < 2 ^ 24" and c: "1 \<le> c" "c < 2 ^ 32"
  shows "\<exists>Y. f64_div (f64_mul (Finite (of_nat c)) (Finite (of_nat n))) Pow_2_20 = Finite Y
            \<and> \<bar>Y - of_nat c * of_nat n / 2 ^ 20\<bar> \<le> 1 / 1024"
proof -
  define p :: rat where "p = of_nat c * of_nat n"
  have p1: "1 \<le> p"
  proof -
    have "1 * 1 \<le> c * n" using n c by (intro mult_le_mono) simp_all
    then have "(of_nat (1 * 1) :: rat) \<le> of_nat (c * n)" by (simp only: of_nat_le_iff)
    then show ?thesis by (simp add: p_def)
  qed
  have p2: "p < 2 ^ 56"
  proof -
    have "c * n < 2 ^ 32 * 2 ^ 24" using n c by (intro mult_strict_mono) simp_all
    then have "(of_nat (c * n) :: rat) < of_nat (2 ^ 32 * 2 ^ 24)" by (simp only: of_nat_less_iff)
    then show ?thesis by (simp add: p_def)
  qed
  have small: "2 powi (- 1022) \<le> (1 / 2 ^ 21 :: rat)"
  proof -
    have "(2::rat) powi (- 1022) \<le> 2 powi (- 21)" by (rule power_int_increasing) simp_all
    then show ?thesis by (simp add: power_int_minus_divide)
  qed
  have big: "(2::rat) ^ 57 < 2 powi 1023"
  proof -
    have "(2::rat) powi 57 < 2 powi 1023" by (rule power_int_strict_increasing) simp_all
    then show ?thesis by simp
  qed
  have "2 powi (- 1022) \<le> p" using small p1 by simp
  moreover have "p < 2 powi 1023" using big p2 by simp
  ultimately obtain P where P: "fl_round p = Finite P" "\<bar>P - p\<bar> \<le> p / 2 ^ 53"
    using fl_round_rel by blast
  have P2: "\<bar>P - p\<bar> \<le> p / 9007199254740992" using P(2) by simp
  have p2': "p < 72057594037927936" using p2 by simp
  define q where "q = P / 1048576"
  have q1': "1 / 2097152 \<le> q" using P2 p1 unfolding q_def by linarith
  then have q1: "1 / 2 ^ 21 \<le> q" by simp
  have q2': "q < 137438953472" using P2 p2' unfolding q_def by linarith
  then have q2: "q < 2 ^ 37" by simp
  have "2 powi (- 1022) \<le> q" using small q1 by linarith
  moreover have "q < 2 powi 1023" using big q2 by simp
  ultimately obtain Y where Y: "fl_round q = Finite Y" "\<bar>Y - q\<bar> \<le> q / 2 ^ 53"
    using fl_round_rel by blast
  have Y2: "\<bar>Y - q\<bar> \<le> q / 9007199254740992" using Y(2) by simp
  have qp: "\<bar>q - p / 1048576\<bar> \<le> 1 / 1048576 * 8"
    using P2 p2' unfolding q_def by linarith
  have "\<bar>Y - p / 1048576\<bar> \<le> 1 / 1024" using Y2 q2' qp by linarith
  moreover have "f64_div (f64_mul (Finite (of_nat c)) (Finite (of_nat n))) Pow_2_20 = Finite Y"
    using P(1) Y(1) by (simp add: p_def q_def Pow_2_20_def)
  ultimately show ?thesis by (intro exI[of _ Y]) (simp add: p_def)
qed

lemma roundtrip_num:
  fixes f c :: nat
  assumes f: "400000000 \<le> f" "f \<le> 510000000" and c: "31875001 \<le> c" "c < 2 ^ 32"
  shows "\<exists>n r. math_Round (f64_div (f64_mul (Finite (of_nat f)) Pow_2_20) (Finite (of_nat c)))
            = Finite (of_nat n) \<and> n < 2 ^ 24 \<and>
          math_Round (f64_div (f64_mul (Finite (of_nat c)) (Finite (of_nat n))) Pow_2_20)
            = Finite (of_nat r) \<and> r < 2 ^ 32 \<and>
          \<bar>int r - int f\<bar> \<le> \<lceil>(of_nat c / 2 ^ 20 :: rat)\<rceil>"
proof -
  define x :: rat where "x = of_nat f * 2 ^ 20 / of_nat c"
  define C :: rat where "C = of_nat c"
  define F :: rat where "F = of_nat f"
  obtain n :: nat where n: "math_Round (f64_div (f64_mul (Finite (of_nat f)) Pow_2_20) (Finite (of_nat c)))
            = Finite (of_nat n)" "n < 2 ^ 24" "1 \<le> n" "\<bar>of_nat n - x\<bar> \<le> 1 / 2 + x / 2 ^ 53"
    using frf_main[OF f c] unfolding x_def by blast
  define N :: rat where "N = of_nat n"
  have c1: "1 \<le> c" using c by simp
  obtain Y where Y: "f64_div (f64_mul (Finite (of_nat c)) (Finite (of_nat n))) Pow_2_20 = Finite Y"
     "\<bar>Y - C * N / 2 ^ 20\<bar> \<le> 1 / 1024"
    using freq_main[OF n(3) n(2) c1 c(2)] unfolding C_def N_def by blast
  have C: "31875001 \<le> C" "C < 4294967296" using c by (simp_all add: C_def)
  have F: "400000000 \<le> F" "F \<le> 510000000" using f by (simp_all add: F_def)
  have xc: "x * C = F * 2 ^ 20" using C by (simp add: x_def C_def F_def)
  have d1: "C * N / 2 ^ 20 - F = C / 2 ^ 20 * (N - x)"
  proof -
    have "C / 2 ^ 20 * (N - x) = C * N / 2 ^ 20 - (x * C) / 2 ^ 20" by (simp add: algebra_simps diff_divide_distrib)
    then show ?thesis unfolding xc by simp
  qed
  have "\<bar>C / 2 ^ 20 * (N - x)\<bar> = C / 2 ^ 20 * \<bar>N - x\<bar>" using C by (simp add: abs_mult)
  also have "\<dots> \<le> C / 2 ^ 20 * (1 / 2 + x / 2 ^ 53)"
    using n(4) C unfolding N_def by (intro mult_left_mono) simp_all
  also have "\<dots> = C / 2 ^ 21 + (x * C) / 2 ^ 73" by (simp add: algebra_simps)
  also have "\<dots> = C / 2 ^ 21 + F / 2 ^ 53" unfolding xc by simp
  finally have d2: "\<bar>C * N / 1048576 - F\<bar> \<le> C / 2097152 + F / 9007199254740992"
    unfolding d1[symmetric] by simp
  have Y2: "\<bar>Y - C * N / 1048576\<bar> \<le> 1 / 1024" using Y(2) by simp
  have YF: "\<bar>Y - F\<bar> \<le> C / 2097152 + 2 / 1024" using d2 Y2 F by linarith
  have Ypos: "0 < Y" using YF F C by linarith
  define k where "k = \<lfloor>Y + 1 / 2\<rfloor>"
  have k: "of_int k \<le> Y + 1 / 2" "Y + 1 / 2 < of_int k + 1" unfolding k_def by linarith+
  have kF: "\<bar>of_int k - F\<bar> \<le> C / 1048576" using k YF C by linarith
  have "(0::rat) < of_int k" using k(2) YF F C by linarith
  then have k1: "1 \<le> k" by simp
  have "rat_of_int k < 4294967296" using kF F C by linarith
  then have k2: "k < 2 ^ 32" by simp
  have rd: "math_Round (Finite Y) = Finite (of_nat (nat k))"
    using Ypos k1 by (simp add: k_def)
  have "rat_of_int \<bar>k - int f\<bar> \<le> C / 1048576" using kF by (simp add: F_def)
  also have "\<dots> \<le> of_int \<lceil>C / 1048576\<rceil>" by linarith
  finally have "\<bar>k - int f\<bar> \<le> \<lceil>C / 1048576\<rceil>" by (simp only: of_int_le_iff)
  then have "\<bar>int (nat k) - int f\<bar> \<le> \<lceil>(of_nat c / 2 ^ 20 :: rat)\<rceil>" using k1 by (simp add: C_def)
  then show ?thesis
    using n(1,2) rd k2 k1 unfolding Y(1)[symmetric]
    by (intro exI[of _ n] exI[of _ "nat k"]) (simp add: nat_less_iff)
qed


section \<open>Effects of a transfer\<close>

lemma emit_fields [simp]:
  "dev (emit e w) = dev w" "bus (emit e w) = bus w" "refuses (emit e w) = refuses w"
  "held (emit e w) = held w" "trace (emit e w) = trace w @ [e]"
  by (simp_all add: emit_def)

lemma sleep_fields [simp]:
  "dev (sleep n w) = dev w" "bus (sleep n w) = bus w" "refuses (sleep n w) = refuses w"
  "held (sleep n w) = held w" "trace (sleep n w) = trace w @ [Sleep n]"
  by (simp_all add: sleep_def)

lemma tx_frames_append [simp]: "tx_frames (xs @ ys) = tx_frames xs @ tx_frames ys"
  by (induction xs rule: tx_frames.induct) simp_all

lemma slept_append [simp]: "slept (xs @ ys) = slept xs + slept ys"
  by (induction xs rule: slept.induct) simp_all

lemma fill_two:
  "fill (replicate 2 0) resp ! Suc 0 = (if 2 \<le> length resp then resp ! 1 else 0)"
  by (cases resp; cases "tl resp") (auto simp: fill_def numeral_2_eq_2)

lemma Transfer_open:
  assumes "conn s" "length tx = length rx"
  shows "Transfer s tx rx w =
    ((case snd (bus w (dev w) tx) of None \<Rightarrow> Inl TransferFailed | Some resp \<Rightarrow> Inr (fill rx resp)),
     emit (SpiTx tx) (w\<lparr>dev := fst (bus w (dev w) tx)\<rparr>))"
  using assms by (simp add: Transfer_def split: prod.splits option.splits)

section \<open>Framing of single-register access\<close>

text \<open>
  Claim C7.  On an open SPI device, \<open>WriteRegister addr val\<close> passes exactly one frame to
  the bus, the two bytes \<open>addr OR 0x80\<close> and \<open>val\<close>; \<open>ReadRegister addr\<close> passes exactly
  the frame \<open>addr AND 0x7F\<close>, \<open>0x00\<close> and returns the second byte that the bus answers
  (the receive buffer is two zero bytes, so a shorter answer leaves zero there), or
  the transfer error when the bus fails.
\<close>

theorem spi_frames:
  assumes "conn s"
  shows "tx_frames (trace (snd (SPIDevice_WriteRegister s addr val w)))
           = tx_frames (trace w) @ [[addr OR 0x80, val]]
       \<and> tx_frames (trace (snd (SPIDevice_ReadRegister s addr w)))
           = tx_frames (trace w) @ [[addr AND 0x7F, 0x00]]
       \<and> fst (SPIDevice_ReadRegister s addr w)
           = (case snd (bus w (dev w) [addr AND 0x7F, 0x00]) of
                None \<Rightarrow> Inl TransferFailed
              | Some resp \<Rightarrow> Inr (if 2 \<le> length resp then resp ! 1 else 0))"
  using assms
  by (simp add: SPIDevice_WriteRegister_def SPIDevice_ReadRegister_def Transfer_open fill_two
        split: option.splits)

theorem spi_frames_witness:
  "conn spi0
   \<and> tx_frames (trace (snd (SPIDevice_WriteRegister spi0 0x0C 0x2F world0))) = [[0x8C, 0x2F]]
   \<and> tx_frames (trace (snd (SPIDevice_ReadRegister spi0 0x8C world0))) = [[0x0C, 0x00]]
   \<and> fst (SPIDevice_ReadRegister spi0 0x8C world0) = Inr 0"
  using spi_frames [of spi0 "0x0C" "0x2F" world0] spi_frames [of spi0 "0x8C" "0x2F" world0]
  by (simp add: spi0_def world0_def sx1255_bus_def)

section \<open>Frequency validation\<close>

text \<open>
  Claim C2.  A frequency below 400000000 Hz or above 510000000 Hz is refused before
  anything is sent: \<open>SetRxFrequency\<close> returns the out-of-range error, which is an
  \<open>InvalidArgument\<close>, on an initialised controller (and the not-initialised error
  otherwise), and the world is the one it started from, so no frame has been written.
\<close>

theorem set_rx_frequency_rejects:
  assumes "freqHz < 400000000 \<or> 510000000 < freqHz"
  shows "SetRxFrequency impl c freqHz w
           = (Inl (if initialized c then FrequencyOutOfRange freqHz else ControllerNotInitialized), w)
       \<and> kind (FrequencyOutOfRange freqHz) = InvalidArgument
       \<and> tx_frames (trace (snd (SetRxFrequency impl c freqHz w))) = tx_frames (trace w)"
  using assms by (simp add: SetRxFrequency_def set_frequency_def)

theorem set_rx_frequency_rejects_witness:
  "((399999999 :: u32) < 400000000 \<or> (510000000 :: u32) < 399999999)
   \<and> SetRxFrequency impl0 (ctrl0 32000000) 399999999 world0 = (Inl (FrequencyOutOfRange 399999999), world0)
   \<and> SetRxFrequency impl0 (ctrl0 32000000) 510000001 world0 = (Inl (FrequencyOutOfRange 510000001), world0)"
  using set_rx_frequency_rejects [of 399999999 impl0 "ctrl0 32000000" world0]
        set_rx_frequency_rejects [of 510000001 impl0 "ctrl0 32000000" world0]
  by (simp add: ctrl0_def)

section \<open>Handles of a failed open\<close>

lemma acquire_fields [simp]:
  "dev (acquire r w) = dev w" "bus (acquire r w) = bus w" "refuses (acquire r w) = refuses w"
  "held (acquire r w) = held w + {#r#}" "trace (acquire r w) = trace w @ [Opened r]"
  by (simp_all add: acquire_def)

lemma release_fields [simp]:
  "dev (release r w) = dev w" "bus (release r w) = bus w" "refuses (release r w) = refuses w"
  "held (release r w) = held w - {#r#}" "trace (release r w) = trace w @ [Closed r]"
  by (simp_all add: release_def)

lemma RequestLine_cases:
  "RequestLine pin w = (False, w) \<and> refuses w (trace w) (LineRequest pin)
   \<or> RequestLine pin w = (True, emit (LineSet pin 0) (acquire (GpioLine pin) w))
      \<and> \<not> refuses w (trace w) (LineRequest pin)"
  by (simp add: RequestLine_def)

lemma NewGPIOController_fail:
  assumes "NewGPIOController path rp tp w = (Inl e, w')"
  shows "held w' = held w
    \<and> (e = ChipOpenFailed \<and> trace w' = trace w
       \<or> e = ResetRequestFailed \<and> trace w' = trace w @ [Opened GpioChip, Closed GpioChip]
       \<or> e = TxRxRequestFailed \<and>
          trace w' = trace w @ [Opened GpioChip, Opened (GpioLine rp), LineSet rp 0,
                                Closed (GpioLine rp), Closed GpioChip])"
proof (cases "refuses w (trace w) (ChipOpen path)")
  case True
  then show ?thesis using assms by (simp add: NewGPIOController_def)
next
  case c: False
  define w1 where "w1 = acquire GpioChip w"
  show ?thesis
  proof (cases "refuses w1 (trace w1) (LineRequest rp)")
    case True
    then have "RequestLine rp w1 = (False, w1)" by (simp add: RequestLine_def)
    then have "NewGPIOController path rp tp w = (Inl ResetRequestFailed, release GpioChip w1)"
      using c by (simp add: NewGPIOController_def w1_def Let_def)
    then show ?thesis using assms by (auto simp: w1_def)
  next
    case r: False
    define w2 where "w2 = emit (LineSet rp 0) (acquire (GpioLine rp) w1)"
    have rl: "RequestLine rp w1 = (True, w2)" using r by (simp add: RequestLine_def w2_def)
    show ?thesis
    proof (cases "refuses w2 (trace w2) (LineRequest tp)")
      case True
      then have "RequestLine tp w2 = (False, w2)" by (simp add: RequestLine_def)
      then have "NewGPIOController path rp tp w
                  = (Inl TxRxRequestFailed, release GpioChip (release (GpioLine rp) w2))"
        using c rl by (simp add: NewGPIOController_def w1_def Let_def)
      then show ?thesis using assms by (auto simp: w1_def w2_def)
    next
      case False
      then have "RequestLine tp w2 = (True, emit (LineSet tp 0) (acquire (GpioLine tp) w2))"
        by (simp add: RequestLine_def)
      then have "\<exists>g w3. NewGPIOController path rp tp w = (Inr g, w3)"
        using c rl by (simp add: NewGPIOController_def w1_def Let_def)
      then show ?thesis using assms by auto
    qed
  qed
qed


lemma NewSPIDevice_cases:
  "(\<exists>e w'. NewSPIDevice dv spd w = (Inl e, w') \<and> held w' = held w
       \<and> e \<in> {HostInitFailed, SpiOpenFailed, SpiConnectFailed})
   \<or> (\<exists>s. NewSPIDevice dv spd w = (Inr s, acquire SpiPort w) \<and> port s)"
proof (cases "refuses w (trace w) HostInit \<or> refuses w (trace w) (SpiOpen dv)")
  case True
  then show ?thesis by (auto simp: NewSPIDevice_def)
next
  case False
  then show ?thesis
    by (cases "refuses (acquire SpiPort w) (trace (acquire SpiPort w)) SpiConnect")
       (simp_all add: NewSPIDevice_def Let_def)
qed

text \<open>
  Claim C10.  When \<open>NewGPIOController\<close> or \<open>NewSX1255Controller\<close> fails, the handles held
  afterwards are those held before: nothing that was opened stays open.  When the TX/RX
  line is refused, the reset line and then the chip have been closed; when the GPIO
  controller cannot be opened after the SPI port was, the SPI port is closed last.
\<close>

theorem failed_open_releases:
  "(\<forall>e w'. NewGPIOController path rp tp w = (Inl e, w') \<longrightarrow>
       held w' = held w
       \<and> (e = TxRxRequestFailed \<longrightarrow>
            trace w' = trace w @ [Opened GpioChip, Opened (GpioLine rp), LineSet rp 0,
                                  Closed (GpioLine rp), Closed GpioChip]))
 \<and> (\<forall>e w'. NewSX1255Controller dv spd path rp tp clk w = (Inl e, w') \<longrightarrow>
       held w' = held w
       \<and> (e \<in> {ChipOpenFailed, ResetRequestFailed, TxRxRequestFailed} \<longrightarrow>
            (\<exists>es. trace w' = trace w @ Opened SpiPort # es @ [Closed SpiPort])))"
proof (intro conjI allI impI)
  fix e w' assume "NewGPIOController path rp tp w = (Inl e, w')"
  from NewGPIOController_fail[OF this] show "held w' = held w" by simp
next
  fix e w' assume "NewGPIOController path rp tp w = (Inl e, w')" "e = TxRxRequestFailed"
  with NewGPIOController_fail[OF this(1)]
  show "trace w' = trace w @ [Opened GpioChip, Opened (GpioLine rp), LineSet rp 0,
                                  Closed (GpioLine rp), Closed GpioChip]"
    by simp
next
  fix e w' assume a: "NewSX1255Controller dv spd path rp tp clk w = (Inl e, w')"
  from NewSPIDevice_cases[of dv spd w]
  show "held w' = held w"
  proof (elim disjE exE conjE)
    fix e1 w1 assume "NewSPIDevice dv spd w = (Inl e1, w1)" "held w1 = held w"
    then show ?thesis using a by (simp add: NewSX1255Controller_def)
  next
    fix sd assume s: "NewSPIDevice dv spd w = (Inr sd, acquire SpiPort w)" "port sd"
    obtain r2 w2 where g: "NewGPIOController path rp tp (acquire SpiPort w) = (r2, w2)"
      by (cases "NewGPIOController path rp tp (acquire SpiPort w)")
    from a s g obtain e2 where r2: "r2 = Inl e2" and w': "w' = release SpiPort w2"
      by (cases r2) (simp_all add: NewSX1255Controller_def SPIDevice_Close_def)
    have "held w2 = held (acquire SpiPort w)" using NewGPIOController_fail[OF g[unfolded r2]] by simp
    then show ?thesis using w' by simp
  qed
next
  fix e w' assume a: "NewSX1255Controller dv spd path rp tp clk w = (Inl e, w')"
    and e: "e \<in> {ChipOpenFailed, ResetRequestFailed, TxRxRequestFailed}"
  from NewSPIDevice_cases[of dv spd w]
  show "\<exists>es. trace w' = trace w @ Opened SpiPort # es @ [Closed SpiPort]"
  proof (elim disjE exE conjE)
    fix e1 w1 assume s: "NewSPIDevice dv spd w = (Inl e1, w1)"
      and e1: "e1 \<in> {HostInitFailed, SpiOpenFailed, SpiConnectFailed}"
    from a s have "e1 = e" by (simp add: NewSX1255Controller_def)
    with e e1 have False by auto
    then show ?thesis ..
  next
    fix sd assume s: "NewSPIDevice dv spd w = (Inr sd, acquire SpiPort w)" "port sd"
    obtain r2 w2 where g: "NewGPIOController path rp tp (acquire SpiPort w) = (r2, w2)"
      by (cases "NewGPIOController path rp tp (acquire SpiPort w)")
    from a s g obtain e2 where r2: "r2 = Inl e2" and w': "w' = release SpiPort w2"
      by (cases r2) (simp_all add: NewSX1255Controller_def SPIDevice_Close_def)
    have "\<exists>es. trace w2 = trace (acquire SpiPort w) @ es"
      using NewGPIOController_fail[OF g[unfolded r2]] by auto
    then show ?thesis using w' by auto
  qed
qed

theorem failed_open_releases_witness:
  "NewGPIOController ''gpiochip0'' 22 23 world_busy
     = (Inl TxRxRequestFailed,
        world_busy\<lparr>trace := [Opened GpioChip, Opened (GpioLine 22), LineSet 22 0,
                              Closed (GpioLine 22), Closed GpioChip]\<rparr>)
   \<and> fst (NewSX1255Controller ''/dev/spidev0.0'' 500000 ''gpiochip0'' 22 23 32000000 world_busy)
       = Inl TxRxRequestFailed
   \<and> held (snd (NewSX1255Controller ''/dev/spidev0.0'' 500000 ''gpiochip0'' 22 23 32000000 world_busy))
       = held world_busy
   \<and> trace (snd (NewSX1255Controller ''/dev/spidev0.0'' 500000 ''gpiochip0'' 22 23 32000000 world_busy))
       = [Opened SpiPort, Opened GpioChip, Opened (GpioLine 22), LineSet 22 0,
          Closed (GpioLine 22), Closed GpioChip, Closed SpiPort]"
  using failed_open_releases [of "''gpiochip0''" 22 23 world_busy "''/dev/spidev0.0''" 500000 32000000]
  by (simp add: world_busy_def world0_def NewSX1255Controller_def NewSPIDevice_def
        NewGPIOController_def RequestLine_def SPIDevice_Close_def Let_def acquire_def release_def
        emit_def)


section \<open>Reset pulse\<close>

text \<open>
  Claim C9.  \<open>Reset\<close> reports success exactly when the reset line has been requested, the
  system accepts both writes to it, and the whole sequence has been performed in this
  order: the line driven high, a sleep of 100 microseconds, the line driven low, a sleep
  of 5 milliseconds.  So a reset that succeeds has slept 5.1 milliseconds in all, the
  first 100 microseconds of them with the line high, before it returns.  (\<open>time.Sleep\<close>
  pauses for at least its argument, so the slept time is a lower bound on the time
  elapsed.)
\<close>

theorem reset_sequence:
  "Reset g w = (Inr (), w') \<longleftrightarrow>
     (\<exists>line. resetLine g = Some line
        \<and> \<not> refuses w (trace w) (LineSetValue line 1)
        \<and> \<not> refuses w (trace w @ [LineSet line 1, Sleep 100000]) (LineSetValue line 0)
        \<and> w' = w\<lparr>trace := trace w @ [LineSet line 1, Sleep 100000, LineSet line 0, Sleep 5000000]\<rparr>
        \<and> slept (trace w') = slept (trace w) + 5100000)"
proof (cases "resetLine g")
  case None
  then show ?thesis by (simp add: Reset_def)
next
  case (Some line)
  show ?thesis
  proof (cases "refuses w (trace w) (LineSetValue line 1)")
    case True
    then show ?thesis using Some by (simp add: Reset_def SetValue_def)
  next
    case h: False
    show ?thesis
    proof (cases "refuses w (trace w @ [LineSet line 1, Sleep 100000]) (LineSetValue line 0)")
      case True
      then show ?thesis using Some h
        by (simp add: Reset_def SetValue_def Microsecond_def)
    next
      case False
      then show ?thesis using Some h
        by (auto simp: Reset_def SetValue_def Microsecond_def Millisecond_def emit_def sleep_def)
    qed
  qed
qed

theorem reset_sequence_witness:
  "Reset gpio0 world0
     = (Inr (), world0\<lparr>trace := [LineSet 22 1, Sleep 100000, LineSet 22 0, Sleep 5000000]\<rparr>)
   \<and> slept (trace (snd (Reset gpio0 world0))) = 5100000"
  using reset_sequence [of gpio0 world0 "snd (Reset gpio0 world0)"]
  by (simp add: Reset_def SetValue_def gpio0_def world0_def Microsecond_def Millisecond_def
        emit_def sleep_def)

section \<open>Addresses and burst arguments\<close>

lemma spi_write_ready:
  assumes "ready c"
  shows "fst (spi_write c addr val w)
           = (case snd (bus w (dev w) [addr OR 0x80, val]) of
                None \<Rightarrow> Inl TransferFailed | Some resp \<Rightarrow> Inr ())"
    and "tx_frames (trace (snd (spi_write c addr val w))) = tx_frames (trace w) @ [[addr OR 0x80, val]]"
  using assms
  by (auto simp: ready_def spi_write_def SPIDevice_WriteRegister_def Transfer_open
        split: option.splits)

lemma spi_read_ready:
  assumes "ready c"
  shows "fst (spi_read c addr w)
           = (case snd (bus w (dev w) [addr AND 0x7F, 0x00]) of
                None \<Rightarrow> Inl TransferFailed
              | Some resp \<Rightarrow> Inr (if 2 \<le> length resp then resp ! 1 else 0))"
    and "tx_frames (trace (snd (spi_read c addr w))) = tx_frames (trace w) @ [[addr AND 0x7F, 0x00]]"
  using assms
  by (auto simp: ready_def spi_read_def SPIDevice_ReadRegister_def Transfer_open fill_two
        split: option.splits)

text \<open>
  Claim C5, as the code has it.  Neither the transport nor the controller compares a
  register address with the register map: on a ready controller a write or a read of any
  8-bit address sends its frame, and fails only when the bus does, with a transport
  failure.  A burst read of a count that is not positive and a burst write of no values
  fail with an \<open>InvalidArgument\<close> and send nothing.
\<close>

theorem register_access_unchecked:
  assumes "ready c" and "cnt \<le> 0"
  shows "fst (SX1255Controller_WriteRegister c addr val w)
           = (case snd (bus w (dev w) [addr OR 0x80, val]) of
                None \<Rightarrow> Inl TransferFailed | Some resp \<Rightarrow> Inr ())
       \<and> tx_frames (trace (snd (SX1255Controller_WriteRegister c addr val w)))
           = tx_frames (trace w) @ [[addr OR 0x80, val]]
       \<and> fst (SX1255Controller_ReadRegister c addr w)
           = (case snd (bus w (dev w) [addr AND 0x7F, 0x00]) of
                None \<Rightarrow> Inl TransferFailed
              | Some resp \<Rightarrow> Inr (if 2 \<le> length resp then resp ! 1 else 0))
       \<and> tx_frames (trace (snd (SX1255Controller_ReadRegister c addr w)))
           = tx_frames (trace w) @ [[addr AND 0x7F, 0x00]]
       \<and> kind TransferFailed = TransportFailure
       \<and> BurstRead s addr cnt w = (Inl (InvalidCount cnt), w)
       \<and> kind (InvalidCount cnt) = InvalidArgument
       \<and> BurstWrite s addr [] w = (Inl NoValues, w)
       \<and> kind NoValues = InvalidArgument"
proof -
  have i: "initialized c" using assms(1) by (simp add: ready_def)
  show ?thesis
    using assms(2)
    by (simp add: SX1255Controller_WriteRegister_def SX1255Controller_ReadRegister_def i
        spi_write_ready[OF assms(1)] spi_read_ready[OF assms(1)] BurstRead_def BurstWrite_def)
qed

theorem register_access_unchecked_witness:
  "ready (ctrl0 32000000) \<and> (0::int) \<le> 0
   \<and> fst (SX1255Controller_WriteRegister (ctrl0 32000000) 0x14 0xFF world0) = Inr ()
   \<and> tx_frames (trace (snd (SX1255Controller_WriteRegister (ctrl0 32000000) 0x14 0xFF world0)))
       = [[0x94, 0xFF]]
   \<and> fst (SX1255Controller_ReadRegister (ctrl0 32000000) 0x14 world0) = Inr 0
   \<and> BurstRead spi0 0x14 0 world0 = (Inl (InvalidCount 0), world0)
   \<and> BurstWrite spi0 0x14 [] world0 = (Inl NoValues, world0)"
proof -
  have r: "ready (ctrl0 32000000)" by (simp add: ready_def ctrl0_def spi0_def)
  have z: "(0::int) \<le> 0" by simp
  show ?thesis
    using r register_access_unchecked [OF r z, of "0x14" "0xFF" world0 spi0]
    by (simp add: world0_def sx1255_bus_def)
qed

text \<open>
  The claim as given fails at address \<open>0x14\<close>, which is outside the register map: the
  write and the read succeed.
\<close>

theorem address_range_counterexample:
  "\<not> ((0x14 :: byte) \<le> 0x13)
   \<and> fst (SPIDevice_WriteRegister spi0 0x14 0xFF world0) = Inr ()
   \<and> fst (SX1255Controller_WriteRegister (ctrl0 32000000) 0x14 0xFF world0) = Inr ()
   \<and> fst (SX1255Controller_ReadRegister (ctrl0 32000000) 0x14 world0) = Inr 0"
  by (simp add: SX1255Controller_WriteRegister_def SX1255Controller_ReadRegister_def
        spi_write_def spi_read_def SPIDevice_WriteRegister_def SPIDevice_ReadRegister_def
        Transfer_def ctrl0_def spi0_def world0_def sx1255_bus_def fill_def)


section \<open>Bit fields\<close>

lemma read_flag_clear: "(a AND 0x7F) AND 0x80 = (0::byte)"
proof -
  have "(0x7F :: byte) AND 0x80 = 0" by simp
  then show ?thesis by (simp add: and.assoc)
qed

lemma write_addr: "(a OR 0x80) AND 0x7F = a AND (0x7F::byte)"
proof -
  have "(0x80 :: byte) AND 0x7F = 0" by simp
  then show ?thesis by (simp add: bit.conj_disj_distrib2)
qed

lemma write_flag_set: "(a OR 0x80) AND 0x80 \<noteq> (0::byte)"
proof -
  have "(a OR 0x80) AND 0x80 = (0x80 :: byte)"
    by (simp add: bit.conj_disj_distrib2)
  then show ?thesis by simp
qed

lemma mask5: "(0x1F :: byte) = mask 5" by (simp add: mask_eq_exp_minus_1)

lemma lna_high: "drop_bit 5 ((r AND 0x1F) OR push_bit 5 k) = take_bit 3 (k::byte)"
  unfolding mask5
  by (rule bit_word_eqI) (auto simp add: bit_simps)

lemma lna_low: "((r AND 0x1F) OR push_bit 5 k) AND 0x1F = r AND (0x1F::byte)"
  unfolding mask5
  by (rule bit_word_eqI) (auto simp add: bit_simps)

lemma mask8: "(0xFF :: u32) = mask 8" by (simp add: mask_eq_exp_minus_1)

lemma bytes_of_frf:
  fixes frf :: u32
  shows "push_bit 16 (ucast (ucast (drop_bit 16 frf AND 0xFF) :: byte) :: u32)
         OR push_bit 8 (ucast (ucast (drop_bit 8 frf AND 0xFF) :: byte) :: u32)
         OR (ucast (ucast (frf AND 0xFF) :: byte) :: u32) = take_bit 24 frf"
  unfolding mask8
proof (rule bit_word_eqI)
  fix n :: nat
  assume "n < LENGTH(32)"
  consider "n < 8" | "8 \<le> n" "n < 16" | "16 \<le> n" "n < 24" | "24 \<le> n" by linarith
  then show "bit (push_bit 16 (ucast (ucast (drop_bit 16 frf AND mask 8) :: byte) :: u32)
         OR push_bit 8 (ucast (ucast (drop_bit 8 frf AND mask 8) :: byte) :: u32)
         OR (ucast (ucast (frf AND mask 8) :: byte) :: u32)) n = bit (take_bit 24 frf) n"
    by cases (auto simp add: bit_simps)
qed

section \<open>Register access on the chip\<close>

lemma sx_write:
  assumes "ready c" "bus w = sx1255_bus"
  shows "spi_write c addr val w =
    (Inr (), sleep (10 * Microsecond)
               (emit (SpiTx [addr OR 0x80, val]) (w\<lparr>dev := (dev w)(addr AND 0x7F := val)\<rparr>)))"
  using assms
  by (auto simp: ready_def spi_write_def SPIDevice_WriteRegister_def Transfer_open
        sx1255_bus_def write_flag_set write_addr split: option.splits)

lemma sx_read:
  assumes "ready c" "bus w = sx1255_bus"
  shows "spi_read c addr w =
    (Inr (dev w (addr AND 0x7F)), sleep (10 * Microsecond) (emit (SpiTx [addr AND 0x7F, 0]) w))"
  using assms
  by (auto simp: ready_def spi_read_def SPIDevice_ReadRegister_def Transfer_open
        sx1255_bus_def read_flag_clear fill_def split: option.splits)

lemma enable_bit_sx:
  assumes "ready c" "bus w = sx1255_bus"
  shows "\<exists>w'. enable_bit b c en w = (Inr (), w') \<and> bus w' = sx1255_bus
          \<and> dev w' = (dev w)(RegMode := (if en then dev w RegMode OR b else dev w RegMode AND NOT b))"
proof -
  have i: "initialized c" using assms(1) by (simp add: ready_def)
  define w1 where "w1 = sleep (10 * Microsecond) (emit (SpiTx [RegMode AND 0x7F, 0]) w)"
  have b1: "bus w1 = sx1255_bus" "dev w1 = dev w" using assms(2) by (simp_all add: w1_def)
  have m: "RegMode AND 0x7F = RegMode" by (simp add: RegMode_def)
  have r: "spi_read c RegMode w = (Inr (dev w RegMode), w1)"
    using sx_read[OF assms, of RegMode] by (simp add: w1_def m)
  show ?thesis
    unfolding enable_bit_def
    by (simp add: i r sx_write[OF assms(1) b1(1)] b1 m assms(2))
qed

lemma or_and_other_bit:
  fixes m :: byte
  assumes "k \<noteq> i" "k \<noteq> j"
  shows "(m OR push_bit i 1 OR push_bit j 1) AND push_bit k 1 = m AND push_bit k 1"
  using assms by (intro bit_word_eqI) (auto simp add: bit_simps)

lemma or_and_same_bit:
  fixes m :: byte
  shows "(m OR push_bit i 1 OR push_bit j 1) AND push_bit i 1 = push_bit i 1"
    and "(m OR push_bit i 1 OR push_bit j 1) AND push_bit j 1 = push_bit j 1"
  by (intro bit_word_eqI; auto simp add: bit_simps)+

lemma or_and_not:
  fixes m :: byte
  shows "(m OR b) AND NOT b = m AND NOT b"
  by (intro bit_word_eqI) (auto simp add: bit_simps)

lemma mode_bits:
  fixes m :: byte
  shows "(m OR ModeBitRxEnable OR ModeBitTxEnable) AND ModeBitRxEnable = ModeBitRxEnable"
    and "(m OR ModeBitRxEnable OR ModeBitTxEnable) AND ModeBitTxEnable = ModeBitTxEnable"
    and "(m OR ModeBitRxEnable OR ModeBitTxEnable) AND ModeBitRefEnable = m AND ModeBitRefEnable"
    and "(m OR ModeBitRxEnable OR ModeBitTxEnable) AND ModeBitDriverEnable = m AND ModeBitDriverEnable"
  unfolding mode_bit_defs
  using or_and_same_bit[of m 1 2] or_and_other_bit[of 0 1 2 m] or_and_other_bit[of 3 1 2 m]
  by simp_all

section \<open>Mode bits\<close>

text \<open>
  Claim C3, as the code has it.  On a ready controller and the chip, \<open>EnableRx true\<close>
  followed by \<open>EnableTx true\<close> both succeed; each is a read-modify-write of the MODE
  register that sets its own bit and leaves every other bit as it was.  Afterwards the
  RX and TX bits are set, and the REF bit and the DRIVER bit are what they were before
  the two calls.
\<close>

theorem enable_rx_then_tx:
  assumes "ready c" "bus w = sx1255_bus"
  shows "\<exists>w1 w2. EnableRx c True w = (Inr (), w1) \<and> EnableTx c True w1 = (Inr (), w2)
     \<and> dev w1 = (dev w)(RegMode := dev w RegMode OR ModeBitRxEnable)
     \<and> dev w2 = (dev w1)(RegMode := dev w1 RegMode OR ModeBitTxEnable)
     \<and> dev w1 RegMode AND NOT ModeBitRxEnable = dev w RegMode AND NOT ModeBitRxEnable
     \<and> dev w2 RegMode AND NOT ModeBitTxEnable = dev w1 RegMode AND NOT ModeBitTxEnable
     \<and> dev w2 RegMode AND ModeBitRxEnable = ModeBitRxEnable
     \<and> dev w2 RegMode AND ModeBitTxEnable = ModeBitTxEnable
     \<and> dev w2 RegMode AND ModeBitRefEnable = dev w RegMode AND ModeBitRefEnable
     \<and> dev w2 RegMode AND ModeBitDriverEnable = dev w RegMode AND ModeBitDriverEnable"
proof -
  obtain w1 where w1: "EnableRx c True w = (Inr (), w1)" "bus w1 = sx1255_bus"
      "dev w1 = (dev w)(RegMode := dev w RegMode OR ModeBitRxEnable)"
    using enable_bit_sx[OF assms, of ModeBitRxEnable True] by (auto simp: EnableRx_def)
  obtain w2 where w2: "EnableTx c True w1 = (Inr (), w2)"
      "dev w2 = (dev w1)(RegMode := dev w1 RegMode OR ModeBitTxEnable)"
    using enable_bit_sx[OF assms(1) w1(2), of ModeBitTxEnable True] by (auto simp: EnableTx_def)
  have d2: "dev w2 RegMode = dev w RegMode OR ModeBitRxEnable OR ModeBitTxEnable"
    by (simp add: w2(2) w1(3) or.assoc)
  have d2': "dev w2 RegMode = dev w1 RegMode OR ModeBitTxEnable" by (simp add: w2(2))
  have d1: "dev w1 RegMode = dev w RegMode OR ModeBitRxEnable" by (simp add: w1(3))
  have n1: "dev w1 RegMode AND NOT ModeBitRxEnable = dev w RegMode AND NOT ModeBitRxEnable"
    unfolding d1 by (rule or_and_not)
  have n2: "dev w2 RegMode AND NOT ModeBitTxEnable = dev w1 RegMode AND NOT ModeBitTxEnable"
    unfolding d2' by (rule or_and_not)
  have r1: "dev w2 RegMode AND ModeBitRxEnable = ModeBitRxEnable"
    unfolding d2 by (rule mode_bits)
  have r2: "dev w2 RegMode AND ModeBitTxEnable = ModeBitTxEnable"
    unfolding d2 by (rule mode_bits)
  have r3: "dev w2 RegMode AND ModeBitRefEnable = dev w RegMode AND ModeBitRefEnable"
    unfolding d2 by (rule mode_bits)
  have r4: "dev w2 RegMode AND ModeBitDriverEnable = dev w RegMode AND ModeBitDriverEnable"
    unfolding d2 by (rule mode_bits)
  show ?thesis
    using w1(1,3) w2 n1 n2 r1 r2 r3 r4 by blast
qed

theorem enable_rx_then_tx_witness:
  "ready (ctrl0 32000000) \<and> bus world0 = sx1255_bus
   \<and> (\<exists>w1 w2. EnableRx (ctrl0 32000000) True world0 = (Inr (), w1)
        \<and> EnableTx (ctrl0 32000000) True w1 = (Inr (), w2)
        \<and> dev w2 RegMode = 0x06)"
proof -
  have r: "ready (ctrl0 32000000)" by (simp add: ready_def ctrl0_def spi0_def)
  have b: "bus world0 = sx1255_bus" by (simp add: world0_def)
  have d: "dev world0 = (\<lambda>a. 0)" by (simp add: world0_def)
  from enable_rx_then_tx [OF r b] obtain w1 w2 where
    "EnableRx (ctrl0 32000000) True world0 = (Inr (), w1)"
    "EnableTx (ctrl0 32000000) True w1 = (Inr (), w2)"
    "dev w1 = (dev world0)(RegMode := dev world0 RegMode OR ModeBitRxEnable)"
    "dev w2 = (dev w1)(RegMode := dev w1 RegMode OR ModeBitTxEnable)"
    by blast
  then show ?thesis using r b by (auto simp: d mode_bit_defs)
qed

text \<open>
  The claim as given says that the REF bit is set afterwards, for every initial MODE.
  From the sleep mode \<open>0x00\<close> the register ends as \<open>0x06\<close>: REF stays clear.
\<close>

theorem mode_ref_counterexample:
  "dev world0 RegMode = 0x00
   \<and> fst (EnableRx (ctrl0 32000000) True world0) = Inr ()
   \<and> fst (EnableTx (ctrl0 32000000) True (snd (EnableRx (ctrl0 32000000) True world0))) = Inr ()
   \<and> dev (snd (EnableTx (ctrl0 32000000) True (snd (EnableRx (ctrl0 32000000) True world0)))) RegMode
       = 0x06
   \<and> (0x06 :: byte) AND ModeBitRefEnable = 0"
  by (simp add: EnableRx_def EnableTx_def enable_bit_def spi_read_def spi_write_def
        SPIDevice_ReadRegister_def SPIDevice_WriteRegister_def Transfer_def fill_def
        ctrl0_def spi0_def world0_def sx1255_bus_def RegMode_def mode_bit_defs emit_def sleep_def)

section \<open>LNA gain\<close>

text \<open>
  Claim C6.  On a ready controller and the chip, \<open>SetLNAGain\<close> succeeds and stores into
  RXFE1 a value whose bits 7:5 are the code of the ladder (above 45 code 1, above 39
  code 2, above 30 code 3, above 18 code 4, above 6 code 5, otherwise code 6) and whose
  bits 4:0 are those RXFE1 had; no other register changes.
\<close>

theorem lna_gain_bits:
  assumes "ready c" "bus w = sx1255_bus"
  shows "\<exists>w'. SetLNAGain c gainDb w = (Inr (), w')
     \<and> dev w' = (dev w)(RegRxfe1 := (dev w RegRxfe1 AND 0x1F) OR push_bit 5 (lna_setting gainDb))
     \<and> drop_bit 5 (dev w' RegRxfe1)
         = (if 45 < gainDb then 1 else if 39 < gainDb then 2 else if 30 < gainDb then 3
            else if 18 < gainDb then 4 else if 6 < gainDb then 5 else 6)
     \<and> dev w' RegRxfe1 AND 0x1F = dev w RegRxfe1 AND 0x1F"
proof -
  have i: "initialized c" using assms(1) by (simp add: ready_def)
  define w1 where "w1 = sleep (10 * Microsecond) (emit (SpiTx [RegRxfe1 AND 0x7F, 0]) w)"
  have b1: "bus w1 = sx1255_bus" "dev w1 = dev w" using assms(2) by (simp_all add: w1_def)
  have m: "RegRxfe1 AND 0x7F = RegRxfe1" by (simp add: RegRxfe1_def)
  have r: "spi_read c RegRxfe1 w = (Inr (dev w RegRxfe1), w1)"
    using sx_read[OF assms, of RegRxfe1] by (simp add: w1_def m)
  have t: "take_bit 3 (lna_setting gainDb)
         = (if 45 < gainDb then 1 else if 39 < gainDb then 2 else if 30 < gainDb then 3
            else if 18 < gainDb then 4 else if 6 < gainDb then 5 else 6)"
    by (simp add: lna_setting_def lna_defs)
  define v where "v = (dev w RegRxfe1 AND 0x1F) OR push_bit 5 (lna_setting gainDb)"
  define w' where "w' = sleep (10 * Microsecond)
      (emit (SpiTx [RegRxfe1 OR 0x80, v]) (w1\<lparr>dev := (dev w1)(RegRxfe1 AND 0x7F := v)\<rparr>))"
  have run: "SetLNAGain c gainDb w = (Inr (), w')"
    unfolding SetLNAGain_def Let_def
    by (simp only: i r sx_write[OF assms(1) b1(1)] v_def w'_def not_True_eq_False if_False
          prod.case sum.case)
  have d: "dev w' = (dev w)(RegRxfe1 := v)" by (simp add: w'_def b1 m)
  have h: "drop_bit 5 v = take_bit 3 (lna_setting gainDb)" unfolding v_def by (rule lna_high)
  have l: "v AND 0x1F = dev w RegRxfe1 AND 0x1F" unfolding v_def by (rule lna_low)
  have "dev w' RegRxfe1 = v" by (simp add: d)
  then show ?thesis using run d h l t unfolding v_def by auto
qed

theorem lna_gain_bits_witness:
  "ready (ctrl0 32000000) \<and> bus world0 = sx1255_bus
   \<and> (\<exists>w'. SetLNAGain (ctrl0 32000000) 46 world0 = (Inr (), w') \<and> drop_bit 5 (dev w' RegRxfe1) = 1)
   \<and> (\<exists>w'. SetLNAGain (ctrl0 32000000) 40 world0 = (Inr (), w') \<and> drop_bit 5 (dev w' RegRxfe1) = 2)
   \<and> (\<exists>w'. SetLNAGain (ctrl0 32000000) 5 world0 = (Inr (), w') \<and> drop_bit 5 (dev w' RegRxfe1) = 6)"
proof -
  have r: "ready (ctrl0 32000000)" by (simp add: ready_def ctrl0_def spi0_def)
  have b: "bus world0 = sx1255_bus" by (simp add: world0_def)
  show ?thesis
    using r b lna_gain_bits [OF r b, of 46] lna_gain_bits [OF r b, of 40] lna_gain_bits [OF r b, of 5]
    by auto
qed


section \<open>Default configuration\<close>

lemma write_frames_append [simp]: "write_frames (xs @ ys) = write_frames xs @ write_frames ys"
  by (simp add: write_frames_def)

lemma write_frames_Cons [simp]:
  "write_frames [] = []"
  "write_frames (SpiTx ((a OR 0x80) # vs) # es) = ((a OR 0x80) # vs) # write_frames es"
  "write_frames (SpiTx ((a AND 0x7F) # vs) # es) = write_frames es"
  "write_frames (SpiTx (RegVersion # vs) # es) = write_frames es"
  "write_frames (Sleep n # es) = write_frames es"
  by (simp_all add: write_frames_def is_write_frame_def write_flag_set read_flag_clear
        RegVersion_def)

lemma Initialize_no_write:
  "write_frames (trace (snd (Initialize c w))) = write_frames (trace w)"
proof (cases "initialized c")
  case False
  then show ?thesis by (simp add: Initialize_def)
next
  case i: True
  show ?thesis
  proof (cases "spi c")
    case None
    then show ?thesis using i by (simp add: Initialize_def GetVersion_def spi_read_def)
  next
    case (Some s)
    show ?thesis
    proof (cases "conn s")
      case False
      then show ?thesis using i Some
        by (simp add: Initialize_def GetVersion_def spi_read_def SPIDevice_ReadRegister_def
              Transfer_def)
    next
      case True
      then show ?thesis using i Some
        by (simp add: Initialize_def GetVersion_def spi_read_def SPIDevice_ReadRegister_def
              Transfer_open split: option.splits)
    qed
  qed
qed

lemma Initialize_sx:
  assumes "ready c" "bus w = sx1255_bus"
  shows "\<exists>w'. Initialize c w = (Inr (), w') \<and> bus w' = sx1255_bus
          \<and> trace w' = trace w @ [SpiTx [RegVersion, 0], Sleep (10 * Microsecond)]"
proof -
  have i: "initialized c" using assms(1) by (simp add: ready_def)
  have m: "RegVersion AND 0x7F = RegVersion" by (simp add: RegVersion_def)
  show ?thesis
    by (simp add: Initialize_def GetVersion_def i sx_read[OF assms] m assms(2))
qed

lemma write_all_sx:
  assumes "ready c" "bus w = sx1255_bus"
  shows "\<exists>w'. write_all c es w = (Inr (), w') \<and> bus w' = sx1255_bus
          \<and> tx_frames (trace w') = tx_frames (trace w) @ map (\<lambda>(a, v). [a OR 0x80, v]) es
          \<and> write_frames (trace w') = write_frames (trace w) @ map (\<lambda>(a, v). [a OR 0x80, v]) es"
  using assms(2)
proof (induction es arbitrary: w)
  case Nil
  then show ?case by simp
next
  case (Cons e es)
  obtain a v where e: "e = (a, v)" by (cases e)
  define w1 where "w1 = sleep (10 * Microsecond)
      (emit (SpiTx [a OR 0x80, v]) (w\<lparr>dev := (dev w)(a AND 0x7F := v)\<rparr>))"
  have s: "spi_write c a v w = (Inr (), w1)"
    using sx_write[OF assms(1) Cons.prems] by (simp add: w1_def)
  have b1: "bus w1 = sx1255_bus" using Cons.prems by (simp add: w1_def)
  have t1: "trace w1 = trace w @ [SpiTx [a OR 0x80, v], Sleep (10 * Microsecond)]"
    by (simp add: w1_def)
  from Cons.IH[OF b1] obtain w' where w':
    "write_all c es w1 = (Inr (), w')" "bus w' = sx1255_bus"
    "tx_frames (trace w') = tx_frames (trace w1) @ map (\<lambda>(a, v). [a OR 0x80, v]) es"
    "write_frames (trace w') = write_frames (trace w1) @ map (\<lambda>(a, v). [a OR 0x80, v]) es"
    by blast
  show ?case
    using w' by (simp add: e s t1)
qed

lemma defaults_frames:
  assumes "ready c" "bus w = sx1255_bus"
  shows "\<exists>w'. InitializeWithDefaults es c w = (Inr (), w')
          \<and> tx_frames (trace w')
              = tx_frames (trace w) @ [RegVersion, 0] # map (\<lambda>(a, v). [a OR 0x80, v]) es
          \<and> write_frames (trace w') = write_frames (trace w) @ map (\<lambda>(a, v). [a OR 0x80, v]) es"
proof -
  obtain w1 where w1: "Initialize c w = (Inr (), w1)" "bus w1 = sx1255_bus"
      "trace w1 = trace w @ [SpiTx [RegVersion, 0], Sleep (10 * Microsecond)]"
    using Initialize_sx[OF assms] by blast
  obtain w' where w': "write_all c es w1 = (Inr (), w')"
    "tx_frames (trace w') = tx_frames (trace w1) @ map (\<lambda>(a, v). [a OR 0x80, v]) es"
    "write_frames (trace w') = write_frames (trace w1) @ map (\<lambda>(a, v). [a OR 0x80, v]) es"
    using write_all_sx[OF assms(1) w1(2)] by blast
  show ?thesis
    using w1(1) w' unfolding InitializeWithDefaults_def
    by (simp add: w1(3))
qed

text \<open>
  Claim C4, as the code has it.  On a ready controller and the chip, whatever order the
  run time picks for the entries of \<open>DefaultRegisterValues\<close>, \<open>InitializeWithDefaults\<close>
  succeeds, reads VERSION and then writes one frame for each entry and nothing else: 15
  register values, those of the table.  \<open>Initialize\<close> writes no register, on any
  controller and any bus.
\<close>

theorem initialize_with_defaults_writes:
  assumes "ready c" "bus w = sx1255_bus" "mset entries = mset DefaultRegisterValues"
  shows "(\<exists>w'. InitializeWithDefaults entries c w = (Inr (), w')
          \<and> write_frames (trace w')
              = write_frames (trace w) @ map (\<lambda>(a, v). [a OR 0x80, v]) entries
          \<and> tx_frames (trace w')
              = tx_frames (trace w) @ [RegVersion, 0] # map (\<lambda>(a, v). [a OR 0x80, v]) entries)
       \<and> length entries = 15
       \<and> set entries = set DefaultRegisterValues
       \<and> write_frames (trace (snd (Initialize c w))) = write_frames (trace w)"
proof -
  have "length entries = length DefaultRegisterValues"
    using assms(3) by (rule mset_eq_length)
  then have l: "length entries = 15" by (simp add: DefaultRegisterValues_def)
  have s: "set entries = set DefaultRegisterValues" using assms(3) by (rule mset_eq_setD)
  show ?thesis
    using defaults_frames[OF assms(1,2), of entries] l s Initialize_no_write[of c w] by blast
qed

theorem initialize_with_defaults_writes_witness:
  "ready (ctrl0 32000000) \<and> bus world0 = sx1255_bus
   \<and> mset (rev DefaultRegisterValues) = mset DefaultRegisterValues
   \<and> (\<exists>w'. InitializeWithDefaults (rev DefaultRegisterValues) (ctrl0 32000000) world0 = (Inr (), w')
         \<and> length (write_frames (trace w')) = 15)
   \<and> write_frames (trace (snd (Initialize (ctrl0 32000000) world0))) = []"
proof -
  have r: "ready (ctrl0 32000000)" by (simp add: ready_def ctrl0_def spi0_def)
  have b: "bus world0 = sx1255_bus" by (simp add: world0_def)
  have m: "mset (rev DefaultRegisterValues) = mset DefaultRegisterValues" by simp
  have t: "write_frames (trace world0) = []" by (simp add: world0_def write_frames_def)
  from initialize_with_defaults_writes [OF r b m]
  show ?thesis using r b t by auto
qed

text \<open>
  The claim as given counts 17 register values.  The table has 15 entries, and 15 frames
  are written.
\<close>

theorem defaults_count_counterexample:
  "fst (InitializeWithDefaults DefaultRegisterValues (ctrl0 32000000) world0) = Inr ()
   \<and> length (write_frames (trace (snd (InitializeWithDefaults DefaultRegisterValues
                                          (ctrl0 32000000) world0)))) = 15
   \<and> length DefaultRegisterValues = 15
   \<and> (15 :: nat) \<noteq> 17"
proof -
  have r: "ready (ctrl0 32000000)" by (simp add: ready_def ctrl0_def spi0_def)
  have b: "bus world0 = sx1255_bus" by (simp add: world0_def)
  have t: "write_frames (trace world0) = []" by (simp add: world0_def write_frames_def)
  have l: "length DefaultRegisterValues = 15" by (simp add: DefaultRegisterValues_def)
  from defaults_frames [OF r b, of DefaultRegisterValues]
  show ?thesis using t l by auto
qed


section \<open>Tuning word\<close>

lemma frf_default_exact:
  fixes f :: nat
  assumes f: "400000000 \<le> f" "f \<le> 510000000"
  shows "math_Round (f64_div (f64_mul (Finite (of_nat f)) Pow_2_20) (Finite 32000000))
          = Finite (of_int (round (of_nat f * 2 ^ 20 / 32000000 :: rat)))
       \<and> 13107200 \<le> round (of_nat f * 2 ^ 20 / 32000000 :: rat)
       \<and> round (of_nat f * 2 ^ 20 / 32000000 :: rat) \<le> 16711680"
proof -
  define x :: rat where "x = of_nat f * 2 ^ 20 / of_nat 32000000"
  have c: "(31875001::nat) \<le> 32000000" "(32000000::nat) < 2 ^ 32" by simp_all
  obtain n :: nat where n:
    "math_Round (f64_div (f64_mul (Finite (of_nat f)) Pow_2_20) (Finite (of_nat 32000000)))
       = Finite (of_nat n)"
    "\<bar>of_nat n - x\<bar> \<le> 1 / 2 + x / 2 ^ 53"
    using frf_main[OF f c] unfolding x_def by blast
  have n2: "\<bar>of_nat n - x\<bar> \<le> 1 / 2 + x / 9007199254740992" using n(2) by simp
  have xf: "x = of_int (int f * 512) / 15625" by (simp add: x_def)
  have x_lo: "13107200 \<le> x" and x_hi: "x \<le> 16711680"
    using f by (simp_all add: xf)
  define j where "j = \<lfloor>x + 1 / 2\<rfloor>"
  define N where "N = 1024 * int f + 15625"
  have xN: "x + 1 / 2 = of_int N / 31250" by (simp add: xf N_def)
  have j: "of_int j \<le> x + 1 / 2" "x + 1 / 2 < of_int j + 1" unfolding j_def by linarith+
  have "rat_of_int (31250 * j) \<le> of_int N" using j(1) unfolding xN by simp
  then have a1: "31250 * j \<le> N" by (simp only: of_int_le_iff)
  have "rat_of_int N < of_int (31250 * (j + 1))" using j(2) unfolding xN by simp
  then have a2: "N < 31250 * (j + 1)" by (simp only: of_int_less_iff)
  have odd: "odd N" by (simp add: N_def)
  have "even (31250 * j)" by simp
  then have "31250 * j \<noteq> N" using odd by auto
  then have b1: "31250 * j + 1 \<le> N" using a1 by linarith
  have b2: "N + 1 \<le> 31250 * (j + 1)" using a2 by linarith
  have "rat_of_int (31250 * j + 1) \<le> of_int N" using b1 by (simp only: of_int_le_iff)
  then have c1: "of_int j + 1 / 31250 \<le> x + 1 / 2" unfolding xN by simp
  have "rat_of_int (N + 1) \<le> of_int (31250 * (j + 1))" using b2 by (simp only: of_int_le_iff)
  then have c2: "x + 1 / 2 \<le> of_int j + 1 - 1 / 31250" unfolding xN by simp
  have e1: "(of_nat n :: rat) < of_int j + 1" using n2 c2 x_hi by linarith
  have e2: "rat_of_int j - 1 < of_nat n" using n2 c1 x_hi x_lo by linarith
  have "rat_of_int (int n) < of_int (j + 1)" using e1 by simp
  then have d1: "int n < j + 1" by (simp only: of_int_less_iff)
  have "rat_of_int (j - 1) < of_int (int n)" using e2 by simp
  then have d2: "j - 1 < int n" by (simp only: of_int_less_iff)
  have nj: "int n = j" using d1 d2 by linarith
  have rj: "round (of_nat f * 2 ^ 20 / 32000000 :: rat) = j"
    by (simp add: round_def j_def x_def)
  have "13107200 \<le> j" "j \<le> 16711680" using x_lo x_hi unfolding j_def by linarith+
  moreover have "rat_of_nat n = of_int j" by (simp add: nj[symmetric])
  ultimately show ?thesis using n(1) unfolding rj by simp
qed


lemma uint32_of_nat:
  assumes "n < 2 ^ 32"
  shows "uint32_of_f64 impl (Finite (of_nat n)) = of_nat n"
proof -
  have "int n < 4294967296" using assms by simp
  then show ?thesis by (simp add: uint32_of_f64_def)
qed

lemma f64_of_u32_of_nat:
  assumes "n < 2 ^ 32"
  shows "f64_of_u32 (of_nat n) = Finite (of_nat n)"
  using assms by (simp add: f64_of_u32_def unat_of_nat)

lemma word_round_trip:
  fixes freqHz clk :: u32
  assumes "400000000 \<le> freqHz" "freqHz \<le> 510000000" "31875001 \<le> clk"
  shows "unat (frf_of_freq impl clk freqHz) < 2 ^ 24
       \<and> \<bar>int (unat (freq_of_frf impl clk (frf_of_freq impl clk freqHz))) - int (unat freqHz)\<bar>
            \<le> \<lceil>(of_nat (unat clk) / 2 ^ 20 :: rat)\<rceil>"
proof -
  have f: "400000000 \<le> unat freqHz" "unat freqHz \<le> 510000000"
    using assms(1,2) by (simp_all add: word_le_nat_alt)
  have c: "31875001 \<le> unat clk" using assms(3) by (simp add: word_le_nat_alt)
  have c2: "unat clk < 2 ^ 32" using unsigned_less[of clk, where 'a = nat] by simp
  from roundtrip_num[OF f c c2] obtain n r where nr:
    "math_Round (f64_div (f64_mul (Finite (of_nat (unat freqHz))) Pow_2_20) (Finite (of_nat (unat clk))))
       = Finite (of_nat n)" "n < 2 ^ 24"
    "math_Round (f64_div (f64_mul (Finite (of_nat (unat clk))) (Finite (of_nat n))) Pow_2_20)
       = Finite (of_nat r)" "r < 2 ^ 32"
    "\<bar>int r - int (unat freqHz)\<bar> \<le> \<lceil>(of_nat (unat clk) / 2 ^ 20 :: rat)\<rceil>"
    by blast
  have n32: "n < 2 ^ 32" using nr(2) by simp
  have frf: "frf_of_freq impl clk freqHz = of_nat n"
    unfolding frf_of_freq_def f64_of_u32_def nr(1) by (rule uint32_of_nat[OF n32])
  have un: "unat (of_nat n :: u32) = n" using n32 by (simp add: unat_of_nat)
  have fr: "freq_of_frf impl clk (of_nat n) = of_nat r"
    unfolding freq_of_frf_def f64_of_u32_of_nat[OF n32]
    unfolding f64_of_u32_def nr(3) by (rule uint32_of_nat[OF nr(4)])
  have ur: "unat (of_nat r :: u32) = r" using nr(4) by (simp add: unat_of_nat)
  show ?thesis unfolding frf fr un ur using nr(2,5) by simp
qed

lemma set_frequency_sx:
  assumes "ready c" "bus w = sx1255_bus" "400000000 \<le> freqHz" "freqHz \<le> 510000000"
    and regs: "h AND 0x7F = h" "m AND 0x7F = m" "l AND 0x7F = l"
  shows "\<exists>w'. set_frequency h m l impl c freqHz w = (Inr (), w') \<and> bus w' = sx1255_bus
    \<and> dev w' = (dev w)
         (h := ucast (drop_bit 16 (frf_of_freq impl (clockFreq c) freqHz) AND 0xFF),
          m := ucast (drop_bit 8 (frf_of_freq impl (clockFreq c) freqHz) AND 0xFF),
          l := ucast (frf_of_freq impl (clockFreq c) freqHz AND 0xFF))"
proof -
  have i: "initialized c" using assms(1) by (simp add: ready_def)
  have ok: "\<not> (freqHz < 400000000 \<or> freqHz > 510000000)" using assms(3,4) by (simp add: not_less)
  define frf where "frf = frf_of_freq impl (clockFreq c) freqHz"
  define msb :: byte where "msb = ucast (drop_bit 16 frf AND 0xFF)"
  define mid :: byte where "mid = ucast (drop_bit 8 frf AND 0xFF)"
  define lsb :: byte where "lsb = ucast (frf AND 0xFF)"
  define w1 where "w1 = sleep (10 * Microsecond)
      (emit (SpiTx [h OR 0x80, msb]) (w\<lparr>dev := (dev w)(h AND 0x7F := msb)\<rparr>))"
  define w2 where "w2 = sleep (10 * Microsecond)
      (emit (SpiTx [m OR 0x80, mid]) (w1\<lparr>dev := (dev w1)(m AND 0x7F := mid)\<rparr>))"
  define w3 where "w3 = sleep (10 * Microsecond)
      (emit (SpiTx [l OR 0x80, lsb]) (w2\<lparr>dev := (dev w2)(l AND 0x7F := lsb)\<rparr>))"
  have b1: "bus w1 = sx1255_bus" using assms(2) by (simp add: w1_def)
  have b2: "bus w2 = sx1255_bus" using b1 by (simp add: w2_def)
  have b3: "bus w3 = sx1255_bus" using b2 by (simp add: w3_def)
  have s1: "spi_write c h msb w = (Inr (), w1)" unfolding w1_def by (rule sx_write[OF assms(1,2)])
  have s2: "spi_write c m mid w1 = (Inr (), w2)" unfolding w2_def by (rule sx_write[OF assms(1) b1])
  have s3: "spi_write c l lsb w2 = (Inr (), w3)" unfolding w3_def by (rule sx_write[OF assms(1) b2])
  have run: "set_frequency h m l impl c freqHz w = (Inr (), w3)"
    unfolding set_frequency_def Let_def
    using i ok by (simp add: s1 s2 s3 frf_def[symmetric] msb_def[symmetric] mid_def[symmetric]
                      lsb_def[symmetric])
  have d: "dev w3 = (dev w)(h := msb, m := mid, l := lsb)"
    by (simp add: w3_def w2_def w1_def regs)
  show ?thesis using run b3 d unfolding msb_def mid_def lsb_def frf_def by blast
qed

lemma get_frequency_sx:
  assumes "ready c" "bus w = sx1255_bus"
    and regs: "h AND 0x7F = h" "m AND 0x7F = m" "l AND 0x7F = l"
  shows "\<exists>w'. get_frequency h m l impl c w =
     (Inr (freq_of_frf impl (clockFreq c)
            (push_bit 16 (ucast (dev w h) :: u32) OR push_bit 8 (ucast (dev w m) :: u32)
               OR (ucast (dev w l) :: u32))), w')"
proof -
  have i: "initialized c" using assms(1) by (simp add: ready_def)
  define w1 where "w1 = sleep (10 * Microsecond) (emit (SpiTx [h AND 0x7F, 0]) w)"
  define w2 where "w2 = sleep (10 * Microsecond) (emit (SpiTx [m AND 0x7F, 0]) w1)"
  have b1: "bus w1 = sx1255_bus" "dev w1 = dev w" using assms(2) by (simp_all add: w1_def)
  have b2: "bus w2 = sx1255_bus" "dev w2 = dev w" using b1 by (simp_all add: w2_def)
  have r1: "spi_read c h w = (Inr (dev w h), w1)"
    using sx_read[OF assms(1,2), of h] by (simp add: w1_def regs)
  have r2: "spi_read c m w1 = (Inr (dev w m), w2)"
    using sx_read[OF assms(1) b1(1), of m] by (simp add: w2_def regs b1)
  have r3: "spi_read c l w2
      = (Inr (dev w l), sleep (10 * Microsecond) (emit (SpiTx [l AND 0x7F, 0]) w2))"
    using sx_read[OF assms(1) b2(1), of l] by (simp add: regs b2)
  show ?thesis
    unfolding get_frequency_def Let_def by (simp add: i r1 r2 r3)
qed

lemma take_bit_24:
  fixes frf :: u32
  assumes "unat frf < 2 ^ 24"
  shows "take_bit 24 frf = frf"
proof -
  have "frf < 2 ^ 24" using assms by (simp add: word_less_nat_alt)
  then have "frf AND mask 24 = frf" by (rule less_mask_eq)
  then show ?thesis by (simp add: take_bit_eq_mask)
qed

lemma frf_default_word:
  fixes freqHz :: u32
  assumes "400000000 \<le> freqHz" "freqHz \<le> 510000000"
  shows "frf_of_freq impl 32000000 freqHz
           = word_of_int (round (of_nat (unat freqHz) * 2 ^ 20 / 32000000 :: rat))"
    and "2 ^ 20 \<le> unat (frf_of_freq impl 32000000 freqHz)"
proof -
  have f: "400000000 \<le> unat freqHz" "unat freqHz \<le> 510000000"
    using assms by (simp_all add: word_le_nat_alt)
  define j where "j = round (of_nat (unat freqHz) * 2 ^ 20 / 32000000 :: rat)"
  have e: "math_Round (f64_div (f64_mul (Finite (of_nat (unat freqHz))) Pow_2_20) (Finite 32000000))
          = Finite (of_int j)" and j: "13107200 \<le> j" "j \<le> 16711680"
    using frf_default_exact[OF f] by (simp_all add: j_def)
  have c: "f64_of_u32 32000000 = Finite 32000000" by (simp add: f64_of_u32_def)
  have n: "nat j < 2 ^ 32" using j by simp
  have "frf_of_freq impl 32000000 freqHz = uint32_of_f64 impl (Finite (of_nat (nat j)))"
    unfolding frf_of_freq_def c using e j by (simp add: f64_of_u32_def)
  also have "\<dots> = of_nat (nat j)" by (rule uint32_of_nat[OF n])
  finally have r: "frf_of_freq impl 32000000 freqHz = of_nat (nat j)" .
  show "frf_of_freq impl 32000000 freqHz
           = word_of_int (round (of_nat (unat freqHz) * 2 ^ 20 / 32000000 :: rat))"
    unfolding r j_def[symmetric] using j by simp
  have "unat (of_nat (nat j) :: u32) = nat j" using n by (simp add: unat_of_nat)
  then show "2 ^ 20 \<le> unat (frf_of_freq impl 32000000 freqHz)"
    unfolding r using j by simp
qed

lemma math_Round_int:
  assumes "0 \<le> n"
  shows "math_Round (Finite (of_int n)) = Finite (of_int n)"
proof -
  have "\<lfloor>rat_of_int n + 1 / 2\<rfloor> = n" by (rule floor_unique) simp_all
  moreover have "\<bar>rat_of_int n\<bar> = of_int n" using assms by simp
  moreover have "sgn (rat_of_int n) * of_int n = of_int n" using assms by (simp add: sgn_if)
  ultimately show ?thesis by simp
qed

lemma eval_16mhz:
  "frf_of_freq impl 16000000 400000000 = 26214400"
  "freq_of_frf impl 16000000 9437184 = 144000000"
proof -
  have a: "fl_round 419430400000000 = Finite 419430400000000"
    using fl_round_int[of 419430400000000] by simp
  have b: "fl_round 26214400 = Finite 26214400"
    using fl_round_int[of 26214400] by simp
  have r1: "math_Round (Finite 26214400) = Finite 26214400"
    using math_Round_int[of 26214400] by simp
  have u1: "uint32_of_f64 impl (Finite 26214400) = 26214400"
    using uint32_of_nat[of 26214400 impl] by simp
  have q1: "f64_div (f64_mul (f64_of_u32 400000000) Pow_2_20) (f64_of_u32 16000000)
              = Finite 26214400"
    by (simp add: f64_of_u32_def Pow_2_20_def a b)
  show "frf_of_freq impl 16000000 400000000 = 26214400"
    unfolding frf_of_freq_def q1 r1 u1 ..
  have c: "fl_round 150994944000000 = Finite 150994944000000"
    using fl_round_int[of 150994944000000] by simp
  have d: "fl_round 144000000 = Finite 144000000"
    using fl_round_int[of 144000000] by simp
  have r2: "math_Round (Finite 144000000) = Finite 144000000"
    using math_Round_int[of 144000000] by simp
  have u2: "uint32_of_f64 impl (Finite 144000000) = 144000000"
    using uint32_of_nat[of 144000000 impl] by simp
  have q2: "f64_div (f64_mul (f64_of_u32 16000000) (f64_of_u32 9437184)) Pow_2_20
              = Finite 144000000"
    by (simp add: f64_of_u32_def Pow_2_20_def c d)
  show "freq_of_frf impl 16000000 9437184 = 144000000"
    unfolding freq_of_frf_def q2 r2 u2 ..
qed

lemma rx_regs:
  "RegFrfhRx AND 0x7F = RegFrfhRx" "RegFrfmRx AND 0x7F = RegFrfmRx" "RegFrflRx AND 0x7F = RegFrflRx"
  "RegFrfhRx \<noteq> RegFrfmRx" "RegFrfhRx \<noteq> RegFrflRx" "RegFrfmRx \<noteq> RegFrflRx"
  by (simp_all add: reg_defs)

lemma tx_regs:
  "RegFrfhTx AND 0x7F = RegFrfhTx" "RegFrfmTx AND 0x7F = RegFrfmTx" "RegFrflTx AND 0x7F = RegFrflTx"
  by (simp_all add: reg_defs)

lemma frf_recombined:
  fixes clk freqHz :: u32
  assumes "400000000 \<le> freqHz" "freqHz \<le> 510000000" "31875001 \<le> clk"
  shows "push_bit 16 (ucast (ucast (drop_bit 16 (frf_of_freq impl clk freqHz) AND 0xFF) :: byte) :: u32)
         OR push_bit 8 (ucast (ucast (drop_bit 8 (frf_of_freq impl clk freqHz) AND 0xFF) :: byte) :: u32)
         OR (ucast (ucast (frf_of_freq impl clk freqHz AND 0xFF) :: byte) :: u32)
         = frf_of_freq impl clk freqHz"
  using word_round_trip[OF assms, of impl] by (simp only: bytes_of_frf take_bit_24)

section \<open>Frequency round trip\<close>

text \<open>
  Claim C1, as the code has it.  On a ready controller and the chip, for a reference
  clock of at least 31875001 Hz (the default 32 MHz is one) and a frequency from 400 MHz
  to 510 MHz, \<open>SetRxFrequency\<close> succeeds and leaves the three bytes of the tuning word,
  most significant first, in the RX frequency registers; \<open>GetRxFrequency\<close> then
  succeeds, recombines them to the same tuning word and returns a frequency whose
  distance from the requested one is at most the ceiling of the clock divided by
  \<open>2^20\<close>: at most 31 Hz at 32 MHz.
\<close>

theorem frequency_round_trip:
  assumes "ready c" "bus w = sx1255_bus"
    and "400000000 \<le> freqHz" "freqHz \<le> 510000000"
    and "31875001 \<le> clockFreq c"
  shows "\<exists>w1 w2 f.
      SetRxFrequency impl c freqHz w = (Inr (), w1)
    \<and> GetRxFrequency impl c w1 = (Inr f, w2)
    \<and> push_bit 16 (ucast (dev w1 RegFrfhRx) :: u32) OR push_bit 8 (ucast (dev w1 RegFrfmRx) :: u32)
         OR (ucast (dev w1 RegFrflRx) :: u32) = frf_of_freq impl (clockFreq c) freqHz
    \<and> f = freq_of_frf impl (clockFreq c) (frf_of_freq impl (clockFreq c) freqHz)
    \<and> \<bar>int (unat f) - int (unat freqHz)\<bar> \<le> \<lceil>(of_nat (unat (clockFreq c)) / 2 ^ 20 :: rat)\<rceil>
    \<and> (clockFreq c = 32000000 \<longrightarrow> \<bar>int (unat f) - int (unat freqHz)\<bar> \<le> 31)"
proof -
  define frf where "frf = frf_of_freq impl (clockFreq c) freqHz"
  obtain w1 where w1: "SetRxFrequency impl c freqHz w = (Inr (), w1)" "bus w1 = sx1255_bus"
    "dev w1 = (dev w)
         (RegFrfhRx := ucast (drop_bit 16 frf AND 0xFF),
          RegFrfmRx := ucast (drop_bit 8 frf AND 0xFF),
          RegFrflRx := ucast (frf AND 0xFF))"
    using set_frequency_sx[OF assms(1-4) rx_regs(1-3), of impl]
    unfolding SetRxFrequency_def frf_def by blast
  have d: "dev w1 RegFrfhRx = ucast (drop_bit 16 frf AND 0xFF)"
    "dev w1 RegFrfmRx = ucast (drop_bit 8 frf AND 0xFF)"
    "dev w1 RegFrflRx = ucast (frf AND 0xFF)"
    using rx_regs(4-6) by (simp_all add: w1(3))
  have rec: "push_bit 16 (ucast (dev w1 RegFrfhRx) :: u32) OR push_bit 8 (ucast (dev w1 RegFrfmRx) :: u32)
         OR (ucast (dev w1 RegFrflRx) :: u32) = frf"
    unfolding d frf_def by (rule frf_recombined[OF assms(3-5)])
  obtain w2 where w2: "GetRxFrequency impl c w1 = (Inr (freq_of_frf impl (clockFreq c) frf), w2)"
    using get_frequency_sx[OF assms(1) w1(2) rx_regs(1-3), of impl]
    unfolding GetRxFrequency_def rec by blast
  define f where "f = freq_of_frf impl (clockFreq c) frf"
  have b: "\<bar>int (unat f) - int (unat freqHz)\<bar> \<le> \<lceil>(of_nat (unat (clockFreq c)) / 2 ^ 20 :: rat)\<rceil>"
    using word_round_trip[OF assms(3-5), of impl] unfolding f_def frf_def by simp
  have "\<lceil>(32000000 / 2 ^ 20 :: rat)\<rceil> = 31" by (rule ceiling_unique) simp_all
  then have b': "clockFreq c = 32000000 \<longrightarrow> \<bar>int (unat f) - int (unat freqHz)\<bar> \<le> 31"
    using b by auto
  show ?thesis
    using w1(1) w2 rec b b' unfolding f_def frf_def by blast
qed

theorem frequency_round_trip_witness:
  "ready (ctrl0 32000000) \<and> bus world0 = sx1255_bus
   \<and> (400000000 :: u32) \<le> 434000000 \<and> (434000000 :: u32) \<le> 510000000
   \<and> (31875001 :: u32) \<le> clockFreq (ctrl0 32000000)
   \<and> (\<exists>w1 w2 f.
         SetRxFrequency impl0 (ctrl0 32000000) 434000000 world0 = (Inr (), w1)
       \<and> GetRxFrequency impl0 (ctrl0 32000000) w1 = (Inr f, w2)
       \<and> \<bar>int (unat f) - 434000000\<bar> \<le> 31)"
proof -
  have r: "ready (ctrl0 32000000)" by (simp add: ready_def ctrl0_def spi0_def)
  have b: "bus world0 = sx1255_bus" by (simp add: world0_def)
  have f: "(400000000 :: u32) \<le> 434000000" "(434000000 :: u32) \<le> 510000000" by simp_all
  have k: "clockFreq (ctrl0 32000000) = 32000000" by (simp add: ctrl0_def)
  have c: "(31875001 :: u32) \<le> clockFreq (ctrl0 32000000)" unfolding k by simp
  from frequency_round_trip [OF r b f c, of impl0]
  obtain w1 w2 fr where
    "SetRxFrequency impl0 (ctrl0 32000000) 434000000 world0 = (Inr (), w1)"
    "GetRxFrequency impl0 (ctrl0 32000000) w1 = (Inr fr, w2)"
    "clockFreq (ctrl0 32000000) = 32000000 \<longrightarrow> \<bar>int (unat fr) - int (unat (434000000 :: u32))\<bar> \<le> 31"
    by blast
  then show ?thesis using r b f c k by auto
qed

text \<open>
  The claim as given has no bound on the clock.  With a clock of 16 MHz the tuning word
  of 400 MHz is 26214400, which needs 25 bits; the three registers keep the low 24, and
  the frequency read back is 144 MHz.
\<close>

theorem round_trip_low_clock_counterexample:
  "fst (SetRxFrequency impl0 (ctrl0 16000000) 400000000 world0) = Inr ()
   \<and> fst (GetRxFrequency impl0 (ctrl0 16000000)
            (snd (SetRxFrequency impl0 (ctrl0 16000000) 400000000 world0))) = Inr 144000000
   \<and> \<not> \<bar>int (unat (144000000 :: u32)) - int (unat (400000000 :: u32))\<bar>
          \<le> \<lceil>(of_nat (unat (16000000 :: u32)) / 2 ^ 20 :: rat)\<rceil>"
proof -
  have r: "ready (ctrl0 16000000)" by (simp add: ready_def ctrl0_def spi0_def)
  have b: "bus world0 = sx1255_bus" by (simp add: world0_def)
  have f: "(400000000 :: u32) \<le> 400000000" "(400000000 :: u32) \<le> 510000000" by simp_all
  have k: "clockFreq (ctrl0 16000000) = 16000000" by (simp add: ctrl0_def)
  obtain w1 where w1: "SetRxFrequency impl0 (ctrl0 16000000) 400000000 world0 = (Inr (), w1)"
    "bus w1 = sx1255_bus"
    "dev w1 = (dev world0)
         (RegFrfhRx := ucast (drop_bit 16 (26214400 :: u32) AND 0xFF),
          RegFrfmRx := ucast (drop_bit 8 (26214400 :: u32) AND 0xFF),
          RegFrflRx := ucast ((26214400 :: u32) AND 0xFF))"
    using set_frequency_sx[OF r b f rx_regs(1-3), of impl0]
    unfolding SetRxFrequency_def k eval_16mhz by blast
  have d: "dev w1 RegFrfhRx = 0x90" "dev w1 RegFrfmRx = 0" "dev w1 RegFrflRx = 0"
    using rx_regs(4-6) by (simp_all add: w1(3))
  have rec: "push_bit 16 (ucast (dev w1 RegFrfhRx) :: u32) OR push_bit 8 (ucast (dev w1 RegFrfmRx) :: u32)
         OR (ucast (dev w1 RegFrflRx) :: u32) = 9437184"
    unfolding d by simp
  obtain w2 where w2: "GetRxFrequency impl0 (ctrl0 16000000) w1 = (Inr 144000000, w2)"
    using get_frequency_sx[OF r w1(2) rx_regs(1-3), of impl0]
    unfolding GetRxFrequency_def rec k eval_16mhz by blast
  have "\<lceil>(16000000 / 2 ^ 20 :: rat)\<rceil> = 16" by (rule ceiling_unique) simp_all
  then show ?thesis using w1(1) w2 by simp
qed

section \<open>Width of the tuning word\<close>

text \<open>
  Claim C8, as the code has it.  On a ready controller and the chip, for a reference
  clock of at least 31875001 Hz and a frequency from 400 MHz to 510 MHz, the tuning
  word that \<open>SetRxFrequency\<close> and \<open>SetTxFrequency\<close> compute is below \<open>2^24\<close>: it is
  the value of the three bytes that each of them stores, most significant first, in its
  three registers.  At the default 32 MHz it is exactly the frequency times \<open>2^20\<close>
  over the clock, rounded to the nearest integer, and it is not below \<open>2^20\<close>.
\<close>

theorem tuning_word_width:
  assumes "ready c" "bus w = sx1255_bus"
    and "400000000 \<le> freqHz" "freqHz \<le> 510000000"
    and "31875001 \<le> clockFreq c"
  shows "unat (frf_of_freq impl (clockFreq c) freqHz) < 2 ^ 24
    \<and> push_bit 16 (ucast (ucast (drop_bit 16 (frf_of_freq impl (clockFreq c) freqHz) AND 0xFF) :: byte) :: u32)
        OR push_bit 8 (ucast (ucast (drop_bit 8 (frf_of_freq impl (clockFreq c) freqHz) AND 0xFF) :: byte) :: u32)
        OR (ucast (ucast (frf_of_freq impl (clockFreq c) freqHz AND 0xFF) :: byte) :: u32) = frf_of_freq impl (clockFreq c) freqHz
    \<and> (\<exists>w'. SetRxFrequency impl c freqHz w = (Inr (), w')
           \<and> dev w' = (dev w)
                (RegFrfhRx := ucast (drop_bit 16 (frf_of_freq impl (clockFreq c) freqHz) AND 0xFF),
                 RegFrfmRx := ucast (drop_bit 8 (frf_of_freq impl (clockFreq c) freqHz) AND 0xFF),
                 RegFrflRx := ucast (frf_of_freq impl (clockFreq c) freqHz AND 0xFF)))
    \<and> (\<exists>w'. SetTxFrequency impl c freqHz w = (Inr (), w')
           \<and> dev w' = (dev w)
                (RegFrfhTx := ucast (drop_bit 16 (frf_of_freq impl (clockFreq c) freqHz) AND 0xFF),
                 RegFrfmTx := ucast (drop_bit 8 (frf_of_freq impl (clockFreq c) freqHz) AND 0xFF),
                 RegFrflTx := ucast (frf_of_freq impl (clockFreq c) freqHz AND 0xFF)))
    \<and> (clockFreq c = 32000000 \<longrightarrow>
           frf_of_freq impl (clockFreq c) freqHz = word_of_int (round (of_nat (unat freqHz) * 2 ^ 20 / 32000000 :: rat))
         \<and> 2 ^ 20 \<le> unat (frf_of_freq impl (clockFreq c) freqHz))"
proof -
  have a: "unat (frf_of_freq impl (clockFreq c) freqHz) < 2 ^ 24"
    using word_round_trip[OF assms(3-5), of impl] by simp
  note b = frf_recombined[OF assms(3-5), of impl]
  have rx: "\<exists>w'. SetRxFrequency impl c freqHz w = (Inr (), w')
           \<and> dev w' = (dev w)
                (RegFrfhRx := ucast (drop_bit 16 (frf_of_freq impl (clockFreq c) freqHz) AND 0xFF),
                 RegFrfmRx := ucast (drop_bit 8 (frf_of_freq impl (clockFreq c) freqHz) AND 0xFF),
                 RegFrflRx := ucast (frf_of_freq impl (clockFreq c) freqHz AND 0xFF))"
    using set_frequency_sx[OF assms(1-4) rx_regs(1-3), of impl]
    unfolding SetRxFrequency_def by blast
  have tx: "\<exists>w'. SetTxFrequency impl c freqHz w = (Inr (), w')
           \<and> dev w' = (dev w)
                (RegFrfhTx := ucast (drop_bit 16 (frf_of_freq impl (clockFreq c) freqHz) AND 0xFF),
                 RegFrfmTx := ucast (drop_bit 8 (frf_of_freq impl (clockFreq c) freqHz) AND 0xFF),
                 RegFrflTx := ucast (frf_of_freq impl (clockFreq c) freqHz AND 0xFF))"
    using set_frequency_sx[OF assms(1-4) tx_regs(1-3), of impl]
    unfolding SetTxFrequency_def by blast
  have d: "clockFreq c = 32000000 \<longrightarrow>
           frf_of_freq impl (clockFreq c) freqHz = word_of_int (round (of_nat (unat freqHz) * 2 ^ 20 / 32000000 :: rat))
         \<and> 2 ^ 20 \<le> unat (frf_of_freq impl (clockFreq c) freqHz)"
    using frf_default_word[OF assms(3,4), of impl] by auto
  show ?thesis using a b rx tx d by blast
qed

theorem tuning_word_width_witness:
  "ready (ctrl0 32000000) \<and> bus world0 = sx1255_bus
   \<and> (400000000 :: u32) \<le> 434000000 \<and> (434000000 :: u32) \<le> 510000000
   \<and> (31875001 :: u32) \<le> clockFreq (ctrl0 32000000)
   \<and> unat (frf_of_freq impl0 (clockFreq (ctrl0 32000000)) 434000000) < 2 ^ 24
   \<and> 2 ^ 20 \<le> unat (frf_of_freq impl0 (clockFreq (ctrl0 32000000)) 434000000)
   \<and> (\<exists>w'. SetTxFrequency impl0 (ctrl0 32000000) 434000000 world0 = (Inr (), w'))"
proof -
  have r: "ready (ctrl0 32000000)" by (simp add: ready_def ctrl0_def spi0_def)
  have b: "bus world0 = sx1255_bus" by (simp add: world0_def)
  have f: "(400000000 :: u32) \<le> 434000000" "(434000000 :: u32) \<le> 510000000" by simp_all
  have k: "clockFreq (ctrl0 32000000) = 32000000" by (simp add: ctrl0_def)
  have c: "(31875001 :: u32) \<le> clockFreq (ctrl0 32000000)" unfolding k by simp
  from tuning_word_width [OF r b f c, of impl0]
  show ?thesis using r b f c k by blast
qed

text \<open>
  The claim as given says 20 bits.  At 32 MHz the tuning word of 400 MHz is 13107200,
  which is above \<open>2^20\<close>.
\<close>

theorem tuning_word_20_bit_counterexample:
  "frf_of_freq impl0 32000000 400000000 = 13107200
   \<and> \<not> unat (13107200 :: u32) < 2 ^ 20"
proof -
  have f: "(400000000 :: u32) \<le> 400000000" "(400000000 :: u32) \<le> 510000000" by simp_all
  have "round (of_nat (unat (400000000 :: u32)) * 2 ^ 20 / 32000000 :: rat) = 13107200"
    by simp
  then show ?thesis using frf_default_word(1)[OF f, of impl0] by simp
qed


end
